theory Spec2Isabelle
  imports Main
begin

section \<open>The graph store\<close>

text \<open>
  The store holds labelled entities with properties, and directed typed edges between
  them. Every entity of this program is created by a MERGE that gives it a name, a kind
  and a creation time; the other properties are absent (null) until a SET writes them.
  An edge is (source id, relation, target id).
\<close>

datatype elabel = Node | Namespace | Pod | Deployment

datatype rel = runsOn | associateTo | scheduledTo

record entity =
  ident :: nat
  lbl :: elabel
  name :: string
  kind :: string
  created :: string
  status :: "string option"
  pod_ip :: "string option"
  labels :: "string list option"
  selector :: "string list option"
  replicas :: "int option"
  ready_replicas :: "int option"

type_synonym edge = "nat \<times> rel \<times> nat"

record graph =
  nodes :: "entity list"
  edges :: "edge list"

definition empty_graph :: graph where
  "empty_graph = \<lparr>nodes = [], edges = []\<rparr>"

subsection \<open>The Cypher statements the client issues\<close>

definition fresh_id :: "graph \<Rightarrow> nat" where
  "fresh_id g = Suc (foldr max (map ident (nodes g)) 0)"

definition new_entity :: "nat \<Rightarrow> elabel \<Rightarrow> string \<Rightarrow> string \<Rightarrow> string \<Rightarrow> entity" where
  "new_entity i l n k c =
     \<lparr>ident = i, lbl = l, name = n, kind = k, created = c, status = None, pod_ip = None,
      labels = None, selector = None, replicas = None, ready_replicas = None\<rparr>"

definition has_key :: "elabel \<Rightarrow> string \<Rightarrow> string \<Rightarrow> string \<Rightarrow> entity \<Rightarrow> bool" where
  "has_key l n k c e = (lbl e = l \<and> name e = n \<and> kind e = k \<and> created e = c)"

text \<open>\<^verbatim>\<open>MERGE (:L {name: $name, kind: $kind, created: $created})\<close>: nothing when an entity
  with the label and the three properties exists, a new entity otherwise.\<close>

definition merge_entity :: "elabel \<Rightarrow> string \<Rightarrow> string \<Rightarrow> string \<Rightarrow> graph \<Rightarrow> graph" where
  "merge_entity l n k c g =
     (if list_ex (has_key l n k c) (nodes g) then g
      else g\<lparr>nodes := nodes g @ [new_entity (fresh_id g) l n k c]\<rparr>)"

text \<open>\<^verbatim>\<open>MATCH (x ...) SET x.p = ...\<close>: every matching entity is updated.\<close>

definition set_where :: "(entity \<Rightarrow> bool) \<Rightarrow> (entity \<Rightarrow> entity) \<Rightarrow> graph \<Rightarrow> graph" where
  "set_where P u g = g\<lparr>nodes := map (\<lambda>e. if P e then u e else e) (nodes g)\<rparr>"

definition merge_edge :: "edge \<Rightarrow> edge list \<Rightarrow> edge list" where
  "merge_edge x es = (if x \<in> set es then es else es @ [x])"

definition match_pairs :: "(entity \<Rightarrow> bool) \<Rightarrow> rel \<Rightarrow> (entity \<Rightarrow> bool) \<Rightarrow> entity list \<Rightarrow> edge list" where
  "match_pairs P r Q ns =
     concat (map (\<lambda>a. map (\<lambda>b. (ident a, r, ident b)) (filter Q ns)) (filter P ns))"

text \<open>\<^verbatim>\<open>MATCH (a ...) MATCH (b ...) MERGE (a)-[:r]->(b)\<close>: for every matched pair the edge is
  created unless it is there.\<close>

definition merge_edges :: "(entity \<Rightarrow> bool) \<Rightarrow> rel \<Rightarrow> (entity \<Rightarrow> bool) \<Rightarrow> graph \<Rightarrow> graph" where
  "merge_edges P r Q g = g\<lparr>edges := fold merge_edge (match_pairs P r Q (nodes g)) (edges g)\<rparr>"

text \<open>\<^verbatim>\<open>MATCH (x ...) DETACH DELETE x\<close>: the matching entities go, with every edge that
  starts or ends at one of them.\<close>

definition detach_delete :: "(entity \<Rightarrow> bool) \<Rightarrow> graph \<Rightarrow> graph" where
  "detach_delete P g =
     (let dead = map ident (filter P (nodes g))
      in \<lparr>nodes = filter (\<lambda>e. \<not> P e) (nodes g),
          edges = filter (\<lambda>(a, r, b). a \<notin> set dead \<and> b \<notin> set dead) (edges g)\<rparr>)"

text \<open>Node patterns. A property compared with a null parameter matches nothing, and
  \<^verbatim>\<open>"x" in p.labels\<close> is null, so filtered out, on an entity without labels.\<close>

definition named :: "elabel \<Rightarrow> string \<Rightarrow> entity \<Rightarrow> bool" where
  "named l n e = (lbl e = l \<and> name e = n)"

definition pod_with_ip :: "string option \<Rightarrow> entity \<Rightarrow> bool" where
  "pod_with_ip ip e = (lbl e = Pod \<and> (case ip of None \<Rightarrow> False | Some v \<Rightarrow> pod_ip e = Some v))"

definition in_labels :: "string \<Rightarrow> entity \<Rightarrow> bool" where
  "in_labels x e = (case labels e of None \<Rightarrow> False | Some ls \<Rightarrow> x \<in> set ls)"

text \<open>The WHERE clause \<^verbatim>\<open>upsert_pod\<close> concatenates from a selector: one
  \<^verbatim>\<open>"s" in p.labels\<close> per entry, joined by AND. Label keys and values of the cluster
  contain no quote or backslash, so each entry is the string literal it is written as.\<close>

definition pod_where :: "string list \<Rightarrow> entity \<Rightarrow> bool" where
  "pod_where sel e = (lbl e = Pod \<and> list_all (\<lambda>x. in_labels x e) sel)"

section \<open>The driver: sessions, transactions, exceptions\<close>

datatype exn = ServiceUnavailable | CypherError | AttributeError | EventError

datatype 'a result = Ok 'a | Raise exn

text \<open>
  The state is the graph, what the store will answer to the coming transactions
  (\<open>None\<close>: it commits, \<open>Some e\<close>: it raises \<open>e\<close>; after the list every transaction
  commits), and the log written by \<^verbatim>\<open>LOG.exception\<close>.
\<close>

record store =
  db :: graph
  outcomes :: "exn option list"
  log :: "string list"

type_synonym 'a io = "store \<Rightarrow> 'a result \<times> store"

definition healthy :: "graph \<Rightarrow> store" where
  "healthy g = \<lparr>db = g, outcomes = [], log = []\<rparr>"

definition return_io :: "'a \<Rightarrow> 'a io" where
  "return_io v s = (Ok v, s)"

definition bind_io :: "'a io \<Rightarrow> ('a \<Rightarrow> 'b io) \<Rightarrow> 'b io" where
  "bind_io m k s = (case m s of (Ok v, s') \<Rightarrow> k v s' | (Raise e, s') \<Rightarrow> (Raise e, s'))"

definition write_transaction :: "(graph \<Rightarrow> graph) \<Rightarrow> unit io" where
  "write_transaction f s =
     (case outcomes s of
        [] \<Rightarrow> (Ok (), s\<lparr>db := f (db s)\<rparr>)
      | None # os \<Rightarrow> (Ok (), s\<lparr>db := f (db s), outcomes := os\<rparr>)
      | Some e # os \<Rightarrow> (Raise e, s\<lparr>outcomes := os\<rparr>))"

definition read_transaction :: "(graph \<Rightarrow> 'a) \<Rightarrow> 'a io" where
  "read_transaction f s =
     (case outcomes s of
        [] \<Rightarrow> (Ok (f (db s)), s)
      | None # os \<Rightarrow> (Ok (f (db s)), s\<lparr>outcomes := os\<rparr>)
      | Some e # os \<Rightarrow> (Raise e, s\<lparr>outcomes := os\<rparr>))"

text \<open>Python's \<^verbatim>\<open>if x:\<close> on a string, list or dict that may be None.\<close>

definition if_truthy :: "'a list option \<Rightarrow> ('a list \<Rightarrow> unit io) \<Rightarrow> unit io" where
  "if_truthy x k = (case x of None \<Rightarrow> return_io () | Some [] \<Rightarrow> return_io () | Some (a # as) \<Rightarrow> k (a # as))"

text \<open>Python's \<^verbatim>\<open>if n:\<close> on an integer that may be None: zero is false.\<close>

definition truthy_int :: "int option \<Rightarrow> bool" where
  "truthy_int x = (case x of None \<Rightarrow> False | Some n \<Rightarrow> n \<noteq> 0)"

text \<open>\<^verbatim>\<open>except ServiceUnavailable\<close> and \<^verbatim>\<open>except Exception\<close>, each logging and
  returning False. The logged text is the message with the entity's name (the traceback
  that follows it is left out).\<close>

definition except_unavailable :: "string \<Rightarrow> bool io \<Rightarrow> bool io" where
  "except_unavailable msg m s =
     (case m s of
        (Raise ServiceUnavailable, s') \<Rightarrow> (Ok False, s'\<lparr>log := log s' @ [msg]\<rparr>)
      | r \<Rightarrow> r)"

definition except_exception :: "string \<Rightarrow> bool io \<Rightarrow> bool io" where
  "except_exception msg m s =
     (case m s of
        (Raise e, s') \<Rightarrow> (Ok False, s'\<lparr>log := log s' @ [msg]\<rparr>)
      | r \<Rightarrow> r)"

section \<open>Neo4jClient\<close>

record props =
  p_name :: string
  p_kind :: string
  creation_time :: string
  p_status :: "string option"
  p_pod_ip :: "string option"
  p_replicas :: "int option"
  p_ready_replicas :: "int option"

record kwargs =
  kw_labels :: "(string \<times> string) list option"
  kw_namespace :: "string option"
  kw_node_name :: "string option"
  kw_selector :: "(string \<times> string) list option"

text \<open>\<^verbatim>\<open>'%s=%s' % (key, value)\<close> over the items of a dict.\<close>

definition label_property :: "(string \<times> string) list \<Rightarrow> string list" where
  "label_property d = map (\<lambda>(key, v). key @ ''='' @ v) d"

definition get_deployments :: "graph \<Rightarrow> (string \<times> string list option) list" where
  "get_deployments g = map (\<lambda>d. (name d, selector d)) (filter (\<lambda>e. lbl e = Deployment) (nodes g))"

definition update_pod_label :: "string option \<Rightarrow> string list \<Rightarrow> graph \<Rightarrow> graph" where
  "update_pod_label ip ls = set_where (pod_with_ip ip) (\<lambda>e. e\<lparr>labels := Some ls\<rparr>)"

definition add_pod_to_node :: "string option \<Rightarrow> string \<Rightarrow> graph \<Rightarrow> graph" where
  "add_pod_to_node ip node_name = merge_edges (pod_with_ip ip) runsOn (named Node node_name)"

definition add_pod_to_namespace :: "string option \<Rightarrow> string \<Rightarrow> graph \<Rightarrow> graph" where
  "add_pod_to_namespace ip ns = merge_edges (pod_with_ip ip) associateTo (named Namespace ns)"

definition create_node :: "props \<Rightarrow> bool io" where
  "create_node ps =
     except_unavailable (''failed to create Node to database '' @ p_name ps)
       (bind_io (write_transaction (merge_entity Node (p_name ps) (p_kind ps) (creation_time ps)))
          (\<lambda>_. return_io True))"

definition upsert_namespace :: "props \<Rightarrow> bool io" where
  "upsert_namespace ps =
     except_unavailable (''failed to create/update Namespace to database '' @ p_name ps)
       (bind_io (write_transaction (merge_entity Namespace (p_name ps) (p_kind ps) (creation_time ps)))
          (\<lambda>_. bind_io
             (if_truthy (p_status ps) (\<lambda>st.
                write_transaction (set_where (named Namespace (p_name ps)) (\<lambda>e. e\<lparr>status := Some st\<rparr>))))
          (\<lambda>_. return_io True)))"

text \<open>The loop over the deployments read from the store: one MERGE of
  \<^verbatim>\<open>scheduledTo\<close> edges per deployment whose selector is neither null nor empty.\<close>

fun link_deployments :: "(string \<times> string list option) list \<Rightarrow> unit io" where
  "link_deployments [] s = return_io () s"
| "link_deployments (dp # dps) s =
     bind_io
       (if_truthy (snd dp) (\<lambda>sel.
          write_transaction (merge_edges (named Deployment (fst dp)) scheduledTo (pod_where sel))))
       (\<lambda>_. link_deployments dps) s"

definition upsert_pod :: "props \<Rightarrow> kwargs \<Rightarrow> bool io" where
  "upsert_pod ps kw =
     except_exception (''failed to create/update Pod '' @ p_name ps)
       (bind_io (write_transaction (merge_entity Pod (p_name ps) (p_kind ps) (creation_time ps)))
          (\<lambda>_. bind_io
             (if_truthy (p_pod_ip ps) (\<lambda>ip. if_truthy (p_status ps) (\<lambda>st.
                write_transaction
                  (set_where (named Pod (p_name ps)) (\<lambda>e. e\<lparr>status := Some st, pod_ip := Some ip\<rparr>)))))
          (\<lambda>_. bind_io
             (if_truthy (kw_labels kw) (\<lambda>ls.
                bind_io (write_transaction (update_pod_label (p_pod_ip ps) (label_property ls)))
                  (\<lambda>_. bind_io (read_transaction get_deployments)
                  (\<lambda>deploys. if deploys \<noteq> [] then link_deployments deploys else return_io ()))))
          (\<lambda>_. bind_io
             (if_truthy (kw_node_name kw) (\<lambda>n. write_transaction (add_pod_to_node (p_pod_ip ps) n)))
          (\<lambda>_. bind_io
             (if_truthy (kw_namespace kw) (\<lambda>n. write_transaction (add_pod_to_namespace (p_pod_ip ps) n)))
          (\<lambda>_. return_io True))))))"

definition remove_pod :: "string \<Rightarrow> bool io" where
  "remove_pod pod_name =
     except_exception (''failed to remove Pod '' @ pod_name)
       (bind_io (write_transaction (detach_delete (named Pod pod_name))) (\<lambda>_. return_io True))"

definition upsert_deployment :: "props \<Rightarrow> kwargs \<Rightarrow> bool io" where
  "upsert_deployment ps kw =
     except_exception (''failed to create/update Deployment '' @ p_name ps)
       (bind_io (write_transaction (merge_entity Deployment (p_name ps) (p_kind ps) (creation_time ps)))
          (\<lambda>_. bind_io
             (if truthy_int (p_ready_replicas ps) \<and> truthy_int (p_replicas ps)
              then write_transaction
                     (set_where (named Deployment (p_name ps))
                        (\<lambda>e. e\<lparr>replicas := p_replicas ps, ready_replicas := p_ready_replicas ps\<rparr>))
              else return_io ())
          (\<lambda>_. bind_io
             (if_truthy (kw_labels kw) (\<lambda>ls.
                write_transaction
                  (set_where (named Deployment (p_name ps)) (\<lambda>e. e\<lparr>labels := Some (label_property ls)\<rparr>))))
          (\<lambda>_. bind_io
             (if_truthy (kw_namespace kw) (\<lambda>n.
                write_transaction
                  (merge_edges (named Deployment (p_name ps)) associateTo (named Namespace n))))
          (\<lambda>_. bind_io
             (if_truthy (kw_selector kw) (\<lambda>sl.
                write_transaction
                  (set_where (named Deployment (p_name ps)) (\<lambda>e. e\<lparr>selector := Some (label_property sl)\<rparr>))))
          (\<lambda>_. return_io True))))))"

definition remove_deployment :: "string \<Rightarrow> bool io" where
  "remove_deployment n =
     except_exception (''failed to remove deployment '' @ n)
       (bind_io (write_transaction (detach_delete (named Deployment n))) (\<lambda>_. return_io True))"

section \<open>KubeDataController\<close>

text \<open>
  A watch event: its type and the object the client library built from it. The metadata,
  the spec and the status of the object are objects of their own, and each may be None
  (the Status object of an ERROR event has no spec); so may a field in them that the
  cluster leaves out. \<^verbatim>\<open>metadata.creation_timestamp\<close> is held as the text
  \<^verbatim>\<open>strftime("%Y-%m-%d %H:%M")\<close> gives; \<^verbatim>\<open>spec.selector\<close> is \<open>None\<close> when the
  object has no selector, and holds \<^verbatim>\<open>match_labels\<close> (itself possibly None) otherwise.
\<close>

datatype event_type = ADDED | MODIFIED | DELETED | ERROR

record object_meta =
  m_name :: string
  m_creation_timestamp :: "string option"
  m_labels :: "(string \<times> string) list option"
  m_namespace :: "string option"

record object_spec =
  sp_node_name :: "string option"
  sp_replicas :: "int option"
  sp_selector :: "(string \<times> string) list option option"

record object_status =
  st_phase :: "string option"
  st_pod_ip :: "string option"
  st_ready_replicas :: "int option"

record kobject =
  o_kind :: string
  o_metadata :: "object_meta option"
  o_spec :: "object_spec option"
  o_status :: "object_status option"

record event =
  ev_type :: event_type
  ev_object :: kobject

text \<open>\<^verbatim>\<open>x.f\<close>: reading an attribute of None raises AttributeError.\<close>

definition getattr :: "'a option \<Rightarrow> ('a \<Rightarrow> 'b) \<Rightarrow> 'b result" where
  "getattr x f = (case x of None \<Rightarrow> Raise AttributeError | Some v \<Rightarrow> Ok (f v))"

definition bind_result :: "'a result \<Rightarrow> ('a \<Rightarrow> 'b result) \<Rightarrow> 'b result" where
  "bind_result r k = (case r of Ok v \<Rightarrow> k v | Raise e \<Rightarrow> Raise e)"

text \<open>\<^verbatim>\<open>_build_base_props\<close>: the name, the kind and the creation time, in this order;
  \<^verbatim>\<open>strftime\<close> is a method of the timestamp, so a missing timestamp raises as well.\<close>

definition build_base_props :: "event \<Rightarrow> props result" where
  "build_base_props ev =
     bind_result (getattr (o_metadata (ev_object ev)) m_name) (\<lambda>n.
     bind_result (getattr (o_metadata (ev_object ev)) m_creation_timestamp) (\<lambda>ts.
     bind_result (getattr ts (\<lambda>t. t)) (\<lambda>t.
       Ok \<lparr>p_name = n, p_kind = o_kind (ev_object ev), creation_time = t,
           p_status = None, p_pod_ip = None, p_replicas = None, p_ready_replicas = None\<rparr>)))"

definition lift_io :: "'a result \<Rightarrow> 'a io" where
  "lift_io r s = (r, s)"

text \<open>The watch loops, over the events the stream yields, each statement of a loop body
  in the order of the source. Nothing in a loop catches an exception: the first one that
  is raised leaves the loop.\<close>

fun watch_node :: "event list \<Rightarrow> unit io" where
  "watch_node [] s = return_io () s"
| "watch_node (ev # evs) s =
     bind_io
       (if ev_type ev = ADDED
        then bind_io (lift_io (build_base_props ev)) (\<lambda>ps. bind_io (create_node ps) (\<lambda>_. return_io ()))
        else return_io ())
       (\<lambda>_. watch_node evs) s"

fun watch_namespace :: "event list \<Rightarrow> unit io" where
  "watch_namespace [] s = return_io () s"
| "watch_namespace (ev # evs) s =
     bind_io
       (if ev_type ev \<in> {ADDED, MODIFIED}
        then bind_io (lift_io (build_base_props ev)) (\<lambda>ps.
             bind_io (lift_io (getattr (o_status (ev_object ev)) st_phase)) (\<lambda>phase.
             bind_io (upsert_namespace (ps\<lparr>p_status := phase\<rparr>)) (\<lambda>_. return_io ())))
        else return_io ())
       (\<lambda>_. watch_namespace evs) s"

fun watch_pod :: "event list \<Rightarrow> unit io" where
  "watch_pod [] s = return_io () s"
| "watch_pod (ev # evs) s =
     bind_io
       (bind_io (lift_io (getattr (o_metadata (ev_object ev)) m_labels)) (\<lambda>labels.
        bind_io (lift_io (getattr (o_metadata (ev_object ev)) m_namespace)) (\<lambda>namespace.
        bind_io (lift_io (getattr (o_spec (ev_object ev)) sp_node_name)) (\<lambda>node_name.
          if ev_type ev \<in> {ADDED, MODIFIED}
          then bind_io (lift_io (build_base_props ev)) (\<lambda>ps.
               bind_io (lift_io (getattr (o_status (ev_object ev)) st_phase)) (\<lambda>phase.
               bind_io (lift_io (getattr (o_status (ev_object ev)) st_pod_ip)) (\<lambda>ip.
               bind_io (upsert_pod (ps\<lparr>p_status := phase, p_pod_ip := ip\<rparr>)
                          \<lparr>kw_labels = labels, kw_namespace = namespace, kw_node_name = node_name,
                           kw_selector = None\<rparr>)
                 (\<lambda>_. return_io ()))))
          else if ev_type ev = DELETED
          then bind_io (lift_io (getattr (o_metadata (ev_object ev)) m_name)) (\<lambda>n.
               bind_io (remove_pod n) (\<lambda>_. return_io ()))
          else return_io ()))))
       (\<lambda>_. watch_pod evs) s"

fun watch_deployment :: "event list \<Rightarrow> unit io" where
  "watch_deployment [] s = return_io () s"
| "watch_deployment (ev # evs) s =
     bind_io
       (bind_io (lift_io (getattr (o_metadata (ev_object ev)) m_labels)) (\<lambda>labels.
        bind_io (lift_io (getattr (o_metadata (ev_object ev)) m_namespace)) (\<lambda>namespace.
        bind_io (lift_io (bind_result (getattr (o_spec (ev_object ev)) sp_selector)
                            (\<lambda>sel. getattr sel (\<lambda>match_labels. match_labels)))) (\<lambda>selector.
          if ev_type ev \<in> {ADDED, MODIFIED}
          then bind_io (lift_io (build_base_props ev)) (\<lambda>ps.
               bind_io (lift_io (getattr (o_spec (ev_object ev)) sp_replicas)) (\<lambda>reps.
               bind_io (lift_io (getattr (o_status (ev_object ev)) st_ready_replicas)) (\<lambda>ready.
               bind_io (upsert_deployment
                          (ps\<lparr>p_replicas := reps,
                              p_ready_replicas := (if truthy_int ready then ready else Some 0)\<rparr>)
                          \<lparr>kw_labels = labels, kw_namespace = namespace, kw_node_name = None,
                           kw_selector = selector\<rparr>)
                 (\<lambda>_. return_io ()))))
          else if ev_type ev = DELETED
          then bind_io (lift_io (getattr (o_metadata (ev_object ev)) m_name)) (\<lambda>n.
               bind_io (remove_deployment n) (\<lambda>_. return_io ()))
          else return_io ()))))
       (\<lambda>_. watch_deployment evs) s"

text \<open>\<^verbatim>\<open>EventActor.on_receive\<close>: the watch loop of the message's type, and any exception
  logged (the message, without the traceback that follows it) and raised again as
  \<^verbatim>\<open>Exception('Event error ...')\<close>.\<close>

definition on_receive :: "string \<Rightarrow> event list \<Rightarrow> unit io" where
  "on_receive typ evs s =
     (case (if typ = ''namespace'' then watch_namespace evs s
            else if typ = ''node'' then watch_node evs s
            else if typ = ''pod'' then watch_pod evs s
            else if typ = ''deployment'' then watch_deployment evs s
            else return_io () s) of
        (Raise e, s') \<Rightarrow> (Raise EventError, s'\<lparr>log := log s' @ [''Error occur when process event'']\<rparr>)
      | r \<Rightarrow> r)"

section \<open>The effect of an operation on a store that answers\<close>

text \<open>
  When every transaction commits, an operation is a function on the graph: its statements
  one after the other, each under the guard it has in the source. The functions of this
  section are those compositions; the lemmas \<open>upsert_pod_healthy\<close>,
  \<open>upsert_deployment_healthy\<close>, \<open>upsert_namespace_healthy\<close> and \<open>create_node_healthy\<close>
  below show that the operations compute them.
\<close>

definition truthy :: "'a list option \<Rightarrow> bool" where
  "truthy x = (case x of None \<Rightarrow> False | Some l \<Rightarrow> l \<noteq> [])"

definition items :: "'a list option \<Rightarrow> 'a list" where
  "items x = (case x of None \<Rightarrow> [] | Some l \<Rightarrow> l)"

definition when_truthy :: "'a list option \<Rightarrow> ('a list \<Rightarrow> graph \<Rightarrow> graph) \<Rightarrow> graph \<Rightarrow> graph" where
  "when_truthy x k g = (case x of None \<Rightarrow> g | Some [] \<Rightarrow> g | Some (a # as) \<Rightarrow> k (a # as) g)"

definition link_effect :: "(string \<times> string list option) list \<Rightarrow> graph \<Rightarrow> graph" where
  "link_effect dps g =
     fold (\<lambda>dp. when_truthy (snd dp) (\<lambda>sel. merge_edges (named Deployment (fst dp)) scheduledTo (pod_where sel))) dps g"

definition pod_labels_effect :: "string option \<Rightarrow> (string \<times> string) list \<Rightarrow> graph \<Rightarrow> graph" where
  "pod_labels_effect ip ls g =
     link_effect (get_deployments (update_pod_label ip (label_property ls) g))
       (update_pod_label ip (label_property ls) g)"

definition pod_effect :: "props \<Rightarrow> kwargs \<Rightarrow> graph \<Rightarrow> graph" where
  "pod_effect ps kw g =
     when_truthy (kw_namespace kw) (\<lambda>n. add_pod_to_namespace (p_pod_ip ps) n)
      (when_truthy (kw_node_name kw) (\<lambda>n. add_pod_to_node (p_pod_ip ps) n)
        (when_truthy (kw_labels kw) (\<lambda>ls. pod_labels_effect (p_pod_ip ps) ls)
          (when_truthy (p_pod_ip ps) (\<lambda>ip. when_truthy (p_status ps) (\<lambda>st.
              set_where (named Pod (p_name ps)) (\<lambda>e. e\<lparr>status := Some st, pod_ip := Some ip\<rparr>)))
            (merge_entity Pod (p_name ps) (p_kind ps) (creation_time ps) g))))"

definition dep_effect :: "props \<Rightarrow> kwargs \<Rightarrow> graph \<Rightarrow> graph" where
  "dep_effect ps kw g =
     when_truthy (kw_selector kw) (\<lambda>sl.
        set_where (named Deployment (p_name ps)) (\<lambda>e. e\<lparr>selector := Some (label_property sl)\<rparr>))
      (when_truthy (kw_namespace kw) (\<lambda>n.
          merge_edges (named Deployment (p_name ps)) associateTo (named Namespace n))
        (when_truthy (kw_labels kw) (\<lambda>ls.
            set_where (named Deployment (p_name ps)) (\<lambda>e. e\<lparr>labels := Some (label_property ls)\<rparr>))
          ((if truthy_int (p_ready_replicas ps) \<and> truthy_int (p_replicas ps)
            then set_where (named Deployment (p_name ps))
                   (\<lambda>e. e\<lparr>replicas := p_replicas ps, ready_replicas := p_ready_replicas ps\<rparr>)
            else (\<lambda>g. g))
             (merge_entity Deployment (p_name ps) (p_kind ps) (creation_time ps) g))))"

definition namespace_effect :: "props \<Rightarrow> graph \<Rightarrow> graph" where
  "namespace_effect ps g =
     when_truthy (p_status ps) (\<lambda>st. set_where (named Namespace (p_name ps)) (\<lambda>e. e\<lparr>status := Some st\<rparr>))
       (merge_entity Namespace (p_name ps) (p_kind ps) (creation_time ps) g)"

subsection \<open>An upsert in normal form\<close>

text \<open>Every upsert is a MERGE of the entity, then updates of properties of entities, then
  merges of edges between the entities that are there.\<close>

definition map_nodes :: "(entity \<Rightarrow> entity) \<Rightarrow> graph \<Rightarrow> graph" where
  "map_nodes h g = g\<lparr>nodes := map h (nodes g)\<rparr>"

definition add_edges :: "(entity list \<Rightarrow> edge list) \<Rightarrow> graph \<Rightarrow> graph" where
  "add_edges X g = g\<lparr>edges := fold merge_edge (X (nodes g)) (edges g)\<rparr>"

definition upsert_shape ::
  "elabel \<Rightarrow> string \<Rightarrow> string \<Rightarrow> string \<Rightarrow> (entity \<Rightarrow> entity) \<Rightarrow> (entity list \<Rightarrow> edge list) \<Rightarrow> graph \<Rightarrow> graph" where
  "upsert_shape l n k c h X g = add_edges X (map_nodes h (merge_entity l n k c g))"

text \<open>The edges the loop over the deployments asks for, over the entities at hand.\<close>

definition link_pairs :: "entity list \<Rightarrow> (string \<times> string list option) \<Rightarrow> edge list" where
  "link_pairs ns dp =
     (case snd dp of None \<Rightarrow> [] | Some [] \<Rightarrow> []
      | Some (a # as) \<Rightarrow> match_pairs (named Deployment (fst dp)) scheduledTo (pod_where (a # as)) ns)"

definition deployments_of :: "entity list \<Rightarrow> (string \<times> string list option) list" where
  "deployments_of ns = map (\<lambda>d. (name d, selector d)) (filter (\<lambda>e. lbl e = Deployment) ns)"

text \<open>The updates and the edges of \<^verbatim>\<open>upsert_pod\<close>.\<close>

definition set_status_ip :: "props \<Rightarrow> entity \<Rightarrow> entity" where
  "set_status_ip ps e =
     (if truthy (p_pod_ip ps) \<and> truthy (p_status ps) \<and> named Pod (p_name ps) e
      then e\<lparr>status := p_status ps, pod_ip := p_pod_ip ps\<rparr> else e)"

definition set_labels :: "props \<Rightarrow> kwargs \<Rightarrow> entity \<Rightarrow> entity" where
  "set_labels ps kw e =
     (if truthy (kw_labels kw) \<and> pod_with_ip (p_pod_ip ps) e
      then e\<lparr>labels := Some (label_property (items (kw_labels kw)))\<rparr> else e)"

definition pod_update :: "props \<Rightarrow> kwargs \<Rightarrow> entity \<Rightarrow> entity" where
  "pod_update ps kw e = set_labels ps kw (set_status_ip ps e)"

definition scheduled_pairs :: "kwargs \<Rightarrow> entity list \<Rightarrow> edge list" where
  "scheduled_pairs kw ns =
     (if truthy (kw_labels kw) then concat (map (link_pairs ns) (deployments_of ns)) else [])"

definition runs_on_pairs :: "props \<Rightarrow> kwargs \<Rightarrow> entity list \<Rightarrow> edge list" where
  "runs_on_pairs ps kw ns =
     (if truthy (kw_node_name kw)
      then match_pairs (pod_with_ip (p_pod_ip ps)) runsOn (named Node (items (kw_node_name kw))) ns else [])"

definition associate_pairs :: "props \<Rightarrow> kwargs \<Rightarrow> entity list \<Rightarrow> edge list" where
  "associate_pairs ps kw ns =
     (if truthy (kw_namespace kw)
      then match_pairs (pod_with_ip (p_pod_ip ps)) associateTo (named Namespace (items (kw_namespace kw))) ns
      else [])"

definition pod_pairs :: "props \<Rightarrow> kwargs \<Rightarrow> entity list \<Rightarrow> edge list" where
  "pod_pairs ps kw ns = scheduled_pairs kw ns @ runs_on_pairs ps kw ns @ associate_pairs ps kw ns"

text \<open>The updates and the edges of \<^verbatim>\<open>upsert_deployment\<close> and of \<^verbatim>\<open>upsert_namespace\<close>.\<close>

definition dep_update :: "props \<Rightarrow> kwargs \<Rightarrow> entity \<Rightarrow> entity" where
  "dep_update ps kw e =
     (if named Deployment (p_name ps) e
      then e\<lparr>replicas := (if truthy_int (p_ready_replicas ps) \<and> truthy_int (p_replicas ps)
                          then p_replicas ps else replicas e),
             ready_replicas := (if truthy_int (p_ready_replicas ps) \<and> truthy_int (p_replicas ps)
                                then p_ready_replicas ps else ready_replicas e),
             labels := (if truthy (kw_labels kw) then Some (label_property (items (kw_labels kw))) else labels e),
             selector := (if truthy (kw_selector kw) then Some (label_property (items (kw_selector kw)))
                          else selector e)\<rparr>
      else e)"

definition dep_pairs :: "props \<Rightarrow> kwargs \<Rightarrow> entity list \<Rightarrow> edge list" where
  "dep_pairs ps kw ns =
     (if truthy (kw_namespace kw)
      then match_pairs (named Deployment (p_name ps)) associateTo (named Namespace (items (kw_namespace kw))) ns
      else [])"

definition namespace_update :: "props \<Rightarrow> entity \<Rightarrow> entity" where
  "namespace_update ps e =
     (if truthy (p_status ps) \<and> named Namespace (p_name ps) e then e\<lparr>status := p_status ps\<rparr> else e)"

subsection \<open>What an operation may change, whatever the store answers\<close>

text \<open>
  A relation between graphs holds of an operation when it holds between the graph before
  and the graph after, from every state: also when some transaction fails and the
  operation stops half way. The relation \<open>dep_frame\<close> allows new entities and updates that
  keep the identity, the label and the name of an entity, and no change of the edges but
  new \<^verbatim>\<open>associateTo\<close> edges, at the end, from a deployment of the given name to a namespace
  of the given name.
\<close>

definition io_rel :: "(graph \<Rightarrow> graph \<Rightarrow> bool) \<Rightarrow> 'a io \<Rightarrow> bool" where
  "io_rel R m = (\<forall>s. R (db s) (db (snd (m s))))"

definition sigs :: "graph \<Rightarrow> (nat \<times> elabel \<times> string) set" where
  "sigs g = (\<lambda>e. (ident e, lbl e, name e)) ` set (nodes g)"

definition dep_frame :: "string \<Rightarrow> string option \<Rightarrow> graph \<Rightarrow> graph \<Rightarrow> bool" where
  "dep_frame n ns g g' =
     (sigs g \<subseteq> sigs g'
      \<and> (\<exists>new. edges g' = edges g @ new
            \<and> (\<forall>x\<in>set new. \<exists>i j. x = (i, associateTo, j) \<and> truthy ns
                   \<and> (i, Deployment, n) \<in> sigs g' \<and> (j, Namespace, items ns) \<in> sigs g')))"

subsection \<open>The selector match in the words of the specification\<close>


section \<open>Example inputs\<close>

definition node_props :: props where
  "node_props =
     \<lparr>p_name = ''n1'', p_kind = ''Node'', creation_time = ''2018-05-01 10:00'', p_status = None,
      p_pod_ip = None, p_replicas = None, p_ready_replicas = None\<rparr>"

definition namespace_props :: props where
  "namespace_props =
     \<lparr>p_name = ''default'', p_kind = ''Namespace'', creation_time = ''2018-05-01 10:00'',
      p_status = Some ''Active'', p_pod_ip = None, p_replicas = None, p_ready_replicas = None\<rparr>"

definition web_props :: "int option \<Rightarrow> int option \<Rightarrow> props" where
  "web_props r rr =
     \<lparr>p_name = ''web'', p_kind = ''Deployment'', creation_time = ''2018-05-01 10:00'', p_status = None,
      p_pod_ip = None, p_replicas = r, p_ready_replicas = rr\<rparr>"

definition pod_props :: "string \<Rightarrow> string option \<Rightarrow> string option \<Rightarrow> props" where
  "pod_props n st ip =
     \<lparr>p_name = n, p_kind = ''Pod'', creation_time = ''2018-05-01 10:00'', p_status = st,
      p_pod_ip = ip, p_replicas = None, p_ready_replicas = None\<rparr>"

definition no_kwargs :: kwargs where
  "no_kwargs = \<lparr>kw_labels = None, kw_namespace = None, kw_node_name = None, kw_selector = None\<rparr>"

definition labelled :: "(string \<times> string) list \<Rightarrow> kwargs" where
  "labelled ls = \<lparr>kw_labels = Some ls, kw_namespace = None, kw_node_name = None, kw_selector = None\<rparr>"

definition selecting :: "(string \<times> string) list \<Rightarrow> kwargs" where
  "selecting sl = \<lparr>kw_labels = None, kw_namespace = None, kw_node_name = None, kw_selector = Some sl\<rparr>"

definition placed :: kwargs where
  "placed = \<lparr>kw_labels = Some [(''app'', ''x'')], kw_namespace = Some ''default'', kw_node_name = Some ''n1'',
             kw_selector = None\<rparr>"

definition reselected :: kwargs where
  "reselected = \<lparr>kw_labels = None, kw_namespace = Some ''default'', kw_node_name = None,
                 kw_selector = Some [(''app'', ''y'')]\<rparr>"

text \<open>A pending pod, not yet scheduled: no labels, no node, no address. The second
  argument is its creation timestamp.\<close>

definition pod_object :: "string \<Rightarrow> string option \<Rightarrow> kobject" where
  "pod_object n t =
     \<lparr>o_kind = ''Pod'',
      o_metadata = Some \<lparr>m_name = n, m_creation_timestamp = t, m_labels = None, m_namespace = None\<rparr>,
      o_spec = Some \<lparr>sp_node_name = None, sp_replicas = None, sp_selector = None\<rparr>,
      o_status = Some \<lparr>st_phase = Some ''Pending'', st_pod_ip = None, st_ready_replicas = None\<rparr>\<rparr>"

definition incomplete_event :: event where
  "incomplete_event = \<lparr>ev_type = ADDED, ev_object = pod_object ''p1'' None\<rparr>"

definition complete_event :: event where
  "complete_event = \<lparr>ev_type = ADDED, ev_object = pod_object ''p2'' (Some ''2018-05-01 10:00'')\<rparr>"

text \<open>The event of pod p2 running on node n1, in namespace default, with the label app=x.\<close>

definition pod_added :: event where
  "pod_added =
     \<lparr>ev_type = ADDED,
      ev_object =
        \<lparr>o_kind = ''Pod'',
         o_metadata = Some \<lparr>m_name = ''p2'', m_creation_timestamp = Some ''2018-05-01 10:00'',
                            m_labels = Some [(''app'', ''x'')], m_namespace = Some ''default''\<rparr>,
         o_spec = Some \<lparr>sp_node_name = Some ''n1'', sp_replicas = None, sp_selector = None\<rparr>,
         o_status = Some \<lparr>st_phase = Some ''Running'', st_pod_ip = Some ''10.0.0.2'',
                          st_ready_replicas = None\<rparr>\<rparr>\<rparr>"

text \<open>Stored entities, and the stores that the operations build from the empty graph.\<close>

definition stored_pod :: entity where
  "stored_pod = (new_entity 1 Pod ''p1'' ''Pod'' ''2018-05-01 10:00'')
                  \<lparr>status := Some ''Running'', pod_ip := Some ''10.0.0.1'', labels := Some [''app=x'']\<rparr>"

definition stored_web :: entity where
  "stored_web = (new_entity 2 Deployment ''web'' ''Deployment'' ''2018-05-01 10:00'')
                  \<lparr>replicas := Some 3, ready_replicas := Some 3, selector := Some [''app=x'']\<rparr>"

definition stored_node :: entity where
  "stored_node = new_entity 1 Node ''n1'' ''Node'' ''2018-05-01 10:00''"

definition stored_namespace :: entity where
  "stored_namespace = (new_entity 2 Namespace ''default'' ''Namespace'' ''2018-05-01 10:00'')\<lparr>status := Some ''Active''\<rparr>"

definition cluster_web :: entity where
  "cluster_web = (new_entity 3 Deployment ''web'' ''Deployment'' ''2018-05-01 10:00'')
                   \<lparr>replicas := Some 3, ready_replicas := Some 3, selector := Some [''app=x'']\<rparr>"

definition pending_pod :: entity where
  "pending_pod = new_entity 4 Pod ''p2'' ''Pod'' ''2018-05-01 10:00''"

definition running_pod :: entity where
  "running_pod = pending_pod\<lparr>status := Some ''Running'', pod_ip := Some ''10.0.0.2'', labels := Some [''app=x'']\<rparr>"


definition pod_first :: store where
  "pod_first = snd (upsert_pod (pod_props ''p1'' (Some ''Running'') (Some ''10.0.0.1'')) (labelled [(''app'', ''x'')])
                      (healthy empty_graph))"

definition then_deployment :: store where
  "then_deployment = snd (upsert_deployment (web_props (Some 3) (Some 3)) (selecting [(''app'', ''x'')]) pod_first)"

definition cluster :: store where
  "cluster = snd (upsert_deployment (web_props (Some 3) (Some 3)) (selecting [(''app'', ''x'')])
               (snd (upsert_namespace namespace_props (snd (create_node node_props (healthy empty_graph))))))"

definition cluster_pending :: store where
  "cluster_pending = snd (upsert_pod (pod_props ''p2'' (Some ''Pending'') None) placed cluster)"

definition cluster_linked :: store where
  "cluster_linked = snd (upsert_pod (pod_props ''p2'' (Some ''Running'') (Some ''10.0.0.2'')) placed cluster_pending)"

section \<open>Unfolding and evaluation\<close>

lemmas io_defs = return_io_def bind_io_def write_transaction_def read_transaction_def if_truthy_def
  except_unavailable_def except_exception_def healthy_def lift_io_def

lemmas cypher_defs = merge_entity_def set_where_def merge_edge_def match_pairs_def merge_edges_def
  detach_delete_def named_def pod_with_ip_def in_labels_def pod_where_def has_key_def new_entity_def
  fresh_id_def empty_graph_def update_pod_label_def add_pod_to_node_def add_pod_to_namespace_def
  get_deployments_def label_property_def truthy_int_def

lemmas event_defs = getattr_def bind_result_def build_base_props_def

lemmas example_defs = pod_props_def web_props_def node_props_def namespace_props_def labelled_def selecting_def
  placed_def no_kwargs_def stored_pod_def stored_web_def stored_node_def stored_namespace_def cluster_web_def
  pending_pod_def running_pod_def

text \<open>The example stores, evaluated: a pod upserted before its deployment, and a cluster of
  a node, a namespace and a deployment to which pod p2 comes, first pending, then running.\<close>

lemma pod_first_eval: "pod_first = healthy \<lparr>nodes = [stored_pod], edges = []\<rparr>"
  by (simp add: pod_first_def upsert_pod_def pod_props_def labelled_def stored_pod_def io_defs cypher_defs)

lemma then_deployment_eval: "then_deployment = healthy \<lparr>nodes = [stored_pod, stored_web], edges = []\<rparr>"
  by (simp add: then_deployment_def pod_first_eval upsert_deployment_def web_props_def selecting_def
        stored_pod_def stored_web_def io_defs cypher_defs)


lemma other_pod_eval:
  "upsert_pod (pod_props ''p2'' (Some ''Pending'') None) (labelled [(''app'', ''y'')]) then_deployment
     = (Ok True, healthy \<lparr>nodes = [stored_pod, stored_web, new_entity 3 Pod ''p2'' ''Pod'' ''2018-05-01 10:00''],
                           edges = [(2, scheduledTo, 1)]\<rparr>)"
  by (simp add: then_deployment_eval upsert_pod_def pod_props_def labelled_def
        stored_pod_def stored_web_def io_defs cypher_defs)

lemma cluster_eval: "cluster = healthy \<lparr>nodes = [stored_node, stored_namespace, cluster_web], edges = []\<rparr>"
  by (simp add: cluster_def create_node_def upsert_namespace_def upsert_deployment_def example_defs io_defs cypher_defs)

lemma cluster_pending_eval:
  "upsert_pod (pod_props ''p2'' (Some ''Pending'') None) placed cluster
     = (Ok True, healthy \<lparr>nodes = [stored_node, stored_namespace, cluster_web, pending_pod], edges = []\<rparr>)"
  by (simp add: cluster_eval upsert_pod_def example_defs io_defs cypher_defs)

lemma cluster_pending_store:
  "cluster_pending = healthy \<lparr>nodes = [stored_node, stored_namespace, cluster_web, pending_pod], edges = []\<rparr>"
  by (simp add: cluster_pending_def cluster_pending_eval)

lemma cluster_running_eval:
  "upsert_pod (pod_props ''p2'' (Some ''Running'') (Some ''10.0.0.2'')) placed cluster_pending
     = (Ok True, healthy \<lparr>nodes = [stored_node, stored_namespace, cluster_web, running_pod],
                           edges = [(3, scheduledTo, 4), (4, runsOn, 1), (4, associateTo, 2)]\<rparr>)"
  by (simp add: cluster_pending_store upsert_pod_def example_defs io_defs cypher_defs)

lemma cluster_no_status_eval:
  "upsert_pod (pod_props ''p2'' None (Some ''10.0.0.2'')) placed cluster_pending
     = (Ok True, healthy \<lparr>nodes = [stored_node, stored_namespace, cluster_web, pending_pod], edges = []\<rparr>)"
  by (simp add: cluster_pending_store upsert_pod_def example_defs io_defs cypher_defs)

lemma cluster_linked_eval:
  "cluster_linked = healthy \<lparr>nodes = [stored_node, stored_namespace, cluster_web, running_pod],
                             edges = [(3, scheduledTo, 4), (4, runsOn, 1), (4, associateTo, 2)]\<rparr>"
  by (simp add: cluster_linked_def cluster_running_eval)

lemma reselected_eval:
  "upsert_deployment (web_props (Some 3) (Some 3)) reselected cluster_linked
     = (Ok True, healthy \<lparr>nodes = [stored_node, stored_namespace, cluster_web\<lparr>selector := Some [''app=y'']\<rparr>, running_pod],
                           edges = [(3, scheduledTo, 4), (4, runsOn, 1), (4, associateTo, 2), (3, associateTo, 2)]\<rparr>)"
  by (simp add: cluster_linked_eval upsert_deployment_def reselected_def example_defs io_defs cypher_defs)

lemma remove_linked_eval:
  "remove_pod ''p2'' cluster_linked
     = (Ok True, healthy \<lparr>nodes = [stored_node, stored_namespace, cluster_web], edges = []\<rparr>)"
  by (simp add: cluster_linked_eval remove_pod_def example_defs io_defs cypher_defs)

lemma pod_added_eval:
  "watch_pod [pod_added] cluster
     = (Ok (), healthy \<lparr>nodes = [stored_node, stored_namespace, cluster_web, running_pod],
                         edges = [(3, scheduledTo, 4), (4, runsOn, 1), (4, associateTo, 2)]\<rparr>)"
  by (simp add: cluster_eval pod_added_def event_defs upsert_pod_def example_defs io_defs cypher_defs)

section \<open>Exceptions at the boundary of the client\<close>

lemma except_exception_returns: "\<exists>b. fst (except_exception msg m s) = Ok b"
  by (cases "m s"; cases "fst (m s)") (auto simp: except_exception_def)

lemma upsert_pod_returns: "\<exists>b. fst (upsert_pod ps kw s) = Ok b"
  unfolding upsert_pod_def by (rule except_exception_returns)

lemma remove_pod_returns: "\<exists>b. fst (remove_pod n s) = Ok b"
  unfolding remove_pod_def by (rule except_exception_returns)

lemma upsert_deployment_returns: "\<exists>b. fst (upsert_deployment ps kw s) = Ok b"
  unfolding upsert_deployment_def by (rule except_exception_returns)

lemma remove_deployment_returns: "\<exists>b. fst (remove_deployment n s) = Ok b"
  unfolding remove_deployment_def by (rule except_exception_returns)

text \<open>
  C4. Every public operation reports a failure of the store as the return value False
  and never lets the exception out. \<^verbatim>\<open>upsert_pod\<close>, \<^verbatim>\<open>remove_pod\<close>,
  \<^verbatim>\<open>upsert_deployment\<close> and \<^verbatim>\<open>remove_deployment\<close> do (the four lemmas above), but
  \<^verbatim>\<open>create_node\<close> and \<^verbatim>\<open>upsert_namespace\<close> catch ServiceUnavailable only: when the
  transaction raises another error of the store, the exception leaves the operation and
  nothing is logged, while a ServiceUnavailable at the same place is logged and gives False.
\<close>

theorem create_node_lets_store_error_out:
  "create_node node_props \<lparr>db = empty_graph, outcomes = [Some CypherError], log = []\<rparr>
     = (Raise CypherError, \<lparr>db = empty_graph, outcomes = [], log = []\<rparr>)
   \<and> upsert_namespace namespace_props \<lparr>db = empty_graph, outcomes = [None, Some CypherError], log = []\<rparr>
     = (Raise CypherError,
        \<lparr>db = \<lparr>nodes = [new_entity 1 Namespace ''default'' ''Namespace'' ''2018-05-01 10:00''], edges = []\<rparr>,
         outcomes = [], log = []\<rparr>)
   \<and> create_node node_props \<lparr>db = empty_graph, outcomes = [Some ServiceUnavailable], log = []\<rparr>
     = (Ok False, \<lparr>db = empty_graph, outcomes = [], log = [''failed to create Node to database n1'']\<rparr>)"
  by (simp add: create_node_def upsert_namespace_def node_props_def namespace_props_def io_defs cypher_defs)

section \<open>Replica counts of a deployment\<close>

text \<open>
  C5. When both \<^verbatim>\<open>replicas\<close> and \<^verbatim>\<open>ready_replicas\<close> are present,
  \<^verbatim>\<open>upsert_deployment\<close> stores them, zero ready replicas included. The guard is
  Python's truth of the two integers, so it is false at zero: a deployment stored with 3 of 3
  replicas ready and then upserted with 3 replicas and 0 ready keeps the stored 3 and 3, and
  a new deployment with 0 ready replicas gets neither property.
\<close>

theorem upsert_deployment_drops_zero_ready_replicas:
  "map (\<lambda>e. (name e, replicas e, ready_replicas e))
     (nodes (db (snd (upsert_deployment (web_props (Some 3) (Some 0)) no_kwargs
                   (snd (upsert_deployment (web_props (Some 3) (Some 3)) no_kwargs (healthy empty_graph)))))))
     = [(''web'', Some 3, Some 3)]
   \<and> map (\<lambda>e. (name e, replicas e, ready_replicas e))
       (nodes (db (snd (upsert_deployment (web_props (Some 3) (Some 0)) no_kwargs (healthy empty_graph)))))
     = [(''web'', None, None)]"
  by (simp add: upsert_deployment_def web_props_def no_kwargs_def io_defs cypher_defs)

section \<open>An event that cannot be normalized\<close>

lemma build_base_props_raises:
  assumes "build_base_props ev = Raise x"
  shows "x = AttributeError"
  using assms by (auto simp: event_defs split: option.splits)

text \<open>A loop over a list of events that ends in \<open>rest\<close> runs \<open>rest\<close> from the state the
  events before it leave, unless one of those raised.\<close>

lemma bind_io_then:
  assumes "\<And>t. k' t = (case k t of (Ok u, s') \<Rightarrow> r s' | (Raise e, s') \<Rightarrow> (Raise e, s'))"
  shows "bind_io m (\<lambda>_. k') s
       = (case bind_io m (\<lambda>_. k) s of (Ok u, s') \<Rightarrow> r s' | (Raise e, s') \<Rightarrow> (Raise e, s'))"
  by (simp add: bind_io_def assms split: prod.splits result.splits)

lemma watch_node_append:
  "watch_node (pre @ rest) s
     = (case watch_node pre s of (Ok u, s') \<Rightarrow> watch_node rest s' | (Raise e, s') \<Rightarrow> (Raise e, s'))"
proof (induction pre arbitrary: s)
  case Nil
  show ?case by (simp add: return_io_def)
next
  case (Cons a pre)
  show ?case by (simp only: append_Cons watch_node.simps) (rule bind_io_then, rule Cons.IH)
qed

lemma watch_namespace_append:
  "watch_namespace (pre @ rest) s
     = (case watch_namespace pre s of (Ok u, s') \<Rightarrow> watch_namespace rest s' | (Raise e, s') \<Rightarrow> (Raise e, s'))"
proof (induction pre arbitrary: s)
  case Nil
  show ?case by (simp add: return_io_def)
next
  case (Cons a pre)
  show ?case by (simp only: append_Cons watch_namespace.simps) (rule bind_io_then, rule Cons.IH)
qed

lemma watch_pod_append:
  "watch_pod (pre @ rest) s
     = (case watch_pod pre s of (Ok u, s') \<Rightarrow> watch_pod rest s' | (Raise e, s') \<Rightarrow> (Raise e, s'))"
proof (induction pre arbitrary: s)
  case Nil
  show ?case by (simp add: return_io_def)
next
  case (Cons a pre)
  show ?case by (simp only: append_Cons watch_pod.simps) (rule bind_io_then, rule Cons.IH)
qed

lemma watch_deployment_append:
  "watch_deployment (pre @ rest) s
     = (case watch_deployment pre s of (Ok u, s') \<Rightarrow> watch_deployment rest s' | (Raise e, s') \<Rightarrow> (Raise e, s'))"
proof (induction pre arbitrary: s)
  case Nil
  show ?case by (simp add: return_io_def)
next
  case (Cons a pre)
  show ?case by (simp only: append_Cons watch_deployment.simps) (rule bind_io_then, rule Cons.IH)
qed

text \<open>The event that cannot be normalized raises at once, from any state.\<close>

lemma watch_node_head:
  assumes "build_base_props ev = Raise x" and "ev_type ev = ADDED"
  shows "watch_node (ev # evs) s = (Raise AttributeError, s)"
  using assms build_base_props_raises [OF assms(1)] by (simp add: bind_io_def lift_io_def)

lemma watch_namespace_head:
  assumes "build_base_props ev = Raise x" and "ev_type ev \<in> {ADDED, MODIFIED}"
  shows "watch_namespace (ev # evs) s = (Raise AttributeError, s)"
  using assms build_base_props_raises [OF assms(1)] by (simp add: bind_io_def lift_io_def)

lemma watch_pod_head:
  assumes "build_base_props ev = Raise x" and "ev_type ev \<in> {ADDED, MODIFIED}"
  shows "watch_pod (ev # evs) s = (Raise AttributeError, s)"
  using assms build_base_props_raises [OF assms(1)]
  by (simp add: bind_io_def lift_io_def getattr_def split: option.splits)

lemma watch_deployment_head:
  assumes "build_base_props ev = Raise x" and "ev_type ev \<in> {ADDED, MODIFIED}"
  shows "watch_deployment (ev # evs) s = (Raise AttributeError, s)"
  using assms build_base_props_raises [OF assms(1)]
  by (simp add: bind_io_def lift_io_def getattr_def bind_result_def split: option.splits)

lemma abort_after:
  assumes "\<And>t. w t = (Raise AttributeError, t)"
  shows "(case p of (Ok u, s') \<Rightarrow> w s' | (Raise e, s') \<Rightarrow> (Raise e, s'))
       = (Raise (case fst p of Ok u \<Rightarrow> AttributeError | Raise e \<Rightarrow> e), snd p)"
  by (cases p; cases "fst p") (simp_all add: assms)

lemma on_receive_raised:
  assumes "(if typ = ''namespace'' then watch_namespace evs s
            else if typ = ''node'' then watch_node evs s
            else if typ = ''pod'' then watch_pod evs s
            else if typ = ''deployment'' then watch_deployment evs s
            else return_io () s) = (Raise y, s')"
  shows "on_receive typ evs s
       = (Raise EventError, s'\<lparr>log := log s' @ [''Error occur when process event'']\<rparr>)"
  unfolding on_receive_def by (simp only: assms) simp

text \<open>
  C3, as the specification states it: an event whose required field is absent is skipped
  and the events after it are processed. It fails: after a pod event without creation
  timestamp, the complete event for pod p2 that follows is never applied (the graph stays
  empty) and the loop ends with the AttributeError.
\<close>

theorem watch_pod_skip_counterexample:
  "watch_pod [incomplete_event, complete_event] (healthy empty_graph)
     = (Raise AttributeError, healthy empty_graph)
   \<and> nodes (db (snd (watch_pod [complete_event] (healthy empty_graph))))
     = [new_entity 1 Pod ''p2'' ''Pod'' ''2018-05-01 10:00'']"
  by (simp add: incomplete_event_def complete_event_def pod_object_def event_defs
        upsert_pod_def io_defs cypher_defs)

text \<open>
  C3, amended. When normalizing an ADDED or MODIFIED event raises, the exception leaves
  the watch loop, in each of the four loops (the node loop normalizes ADDED events only).
  Whatever events \<open>pre\<close> come before the event and whatever events \<open>evs\<close> follow it, the
  loop ends by raising, in the state the events before it have left: the event changes
  nothing in the store and no later event is processed. The exception is the
  AttributeError of the event, unless an earlier event has raised already. \<^verbatim>\<open>on_receive\<close>
  adds its message to the log and raises its event error. Nothing in a loop catches an
  exception of an event: once the events \<open>pre\<close> have raised, of whatever kind the exception
  is, the loop over \<open>pre\<close> followed by any events is the loop over \<open>pre\<close>.
\<close>

theorem watch_loops_abort_on_normalization_error:
  assumes "build_base_props ev = Raise x" and "ev_type ev \<in> {ADDED, MODIFIED}"
  shows "(ev_type ev = ADDED \<longrightarrow>
            watch_node (pre @ ev # evs) s
              = (Raise (case fst (watch_node pre s) of Ok u \<Rightarrow> AttributeError | Raise e \<Rightarrow> e),
                 snd (watch_node pre s))
          \<and> on_receive ''node'' (pre @ ev # evs) s
              = (Raise EventError,
                 (snd (watch_node pre s))
                   \<lparr>log := log (snd (watch_node pre s)) @ [''Error occur when process event'']\<rparr>))
       \<and> watch_namespace (pre @ ev # evs) s
           = (Raise (case fst (watch_namespace pre s) of Ok u \<Rightarrow> AttributeError | Raise e \<Rightarrow> e),
              snd (watch_namespace pre s))
       \<and> on_receive ''namespace'' (pre @ ev # evs) s
           = (Raise EventError,
              (snd (watch_namespace pre s))
                \<lparr>log := log (snd (watch_namespace pre s)) @ [''Error occur when process event'']\<rparr>)
       \<and> watch_pod (pre @ ev # evs) s
           = (Raise (case fst (watch_pod pre s) of Ok u \<Rightarrow> AttributeError | Raise e \<Rightarrow> e),
              snd (watch_pod pre s))
       \<and> on_receive ''pod'' (pre @ ev # evs) s
           = (Raise EventError,
              (snd (watch_pod pre s))
                \<lparr>log := log (snd (watch_pod pre s)) @ [''Error occur when process event'']\<rparr>)
       \<and> watch_deployment (pre @ ev # evs) s
           = (Raise (case fst (watch_deployment pre s) of Ok u \<Rightarrow> AttributeError | Raise e \<Rightarrow> e),
              snd (watch_deployment pre s))
       \<and> on_receive ''deployment'' (pre @ ev # evs) s
           = (Raise EventError,
              (snd (watch_deployment pre s))
                \<lparr>log := log (snd (watch_deployment pre s)) @ [''Error occur when process event'']\<rparr>)
       \<and> (fst (watch_node pre s) = Raise err \<longrightarrow> watch_node (pre @ evs) s = watch_node pre s)
       \<and> (fst (watch_namespace pre s) = Raise err \<longrightarrow> watch_namespace (pre @ evs) s = watch_namespace pre s)
       \<and> (fst (watch_pod pre s) = Raise err \<longrightarrow> watch_pod (pre @ evs) s = watch_pod pre s)
       \<and> (fst (watch_deployment pre s) = Raise err
            \<longrightarrow> watch_deployment (pre @ evs) s = watch_deployment pre s)"
proof -
  have raised: "(case p of (Ok u, s') \<Rightarrow> w s' | (Raise e, s') \<Rightarrow> (Raise e, s')) = p"
    if "fst p = Raise err" for p :: "unit result \<times> store" and w
    using that by (cases p) (simp split: result.splits)
  have g1: "watch_node (pre @ evs) s = watch_node pre s" if "fst (watch_node pre s) = Raise err"
    unfolding watch_node_append [of pre evs s] using that by (rule raised)
  have g2: "watch_namespace (pre @ evs) s = watch_namespace pre s" if "fst (watch_namespace pre s) = Raise err"
    unfolding watch_namespace_append [of pre evs s] using that by (rule raised)
  have g3: "watch_pod (pre @ evs) s = watch_pod pre s" if "fst (watch_pod pre s) = Raise err"
    unfolding watch_pod_append [of pre evs s] using that by (rule raised)
  have g4: "watch_deployment (pre @ evs) s = watch_deployment pre s" if "fst (watch_deployment pre s) = Raise err"
    unfolding watch_deployment_append [of pre evs s] using that by (rule raised)
  have node: "watch_node (pre @ ev # evs) s
              = (Raise (case fst (watch_node pre s) of Ok u \<Rightarrow> AttributeError | Raise e \<Rightarrow> e),
                 snd (watch_node pre s))" if "ev_type ev = ADDED"
    unfolding watch_node_append [of pre "ev # evs" s]
    by (rule abort_after) (rule watch_node_head [OF assms(1) that])
  have namespace: "watch_namespace (pre @ ev # evs) s
           = (Raise (case fst (watch_namespace pre s) of Ok u \<Rightarrow> AttributeError | Raise e \<Rightarrow> e),
              snd (watch_namespace pre s))"
    unfolding watch_namespace_append [of pre "ev # evs" s]
    by (rule abort_after) (rule watch_namespace_head [OF assms])
  have pod: "watch_pod (pre @ ev # evs) s
           = (Raise (case fst (watch_pod pre s) of Ok u \<Rightarrow> AttributeError | Raise e \<Rightarrow> e),
              snd (watch_pod pre s))"
    unfolding watch_pod_append [of pre "ev # evs" s]
    by (rule abort_after) (rule watch_pod_head [OF assms])
  have deployment: "watch_deployment (pre @ ev # evs) s
           = (Raise (case fst (watch_deployment pre s) of Ok u \<Rightarrow> AttributeError | Raise e \<Rightarrow> e),
              snd (watch_deployment pre s))"
    unfolding watch_deployment_append [of pre "ev # evs" s]
    by (rule abort_after) (rule watch_deployment_head [OF assms])
  have "on_receive ''node'' (pre @ ev # evs) s
              = (Raise EventError,
                 (snd (watch_node pre s))
                   \<lparr>log := log (snd (watch_node pre s)) @ [''Error occur when process event'']\<rparr>)"
    if "ev_type ev = ADDED"
    by (rule on_receive_raised) (simp add: node [OF that])
  moreover have "on_receive ''namespace'' (pre @ ev # evs) s
           = (Raise EventError,
              (snd (watch_namespace pre s))
                \<lparr>log := log (snd (watch_namespace pre s)) @ [''Error occur when process event'']\<rparr>)"
    by (rule on_receive_raised) (simp add: namespace)
  moreover have "on_receive ''pod'' (pre @ ev # evs) s
           = (Raise EventError,
              (snd (watch_pod pre s))
                \<lparr>log := log (snd (watch_pod pre s)) @ [''Error occur when process event'']\<rparr>)"
    by (rule on_receive_raised) (simp add: pod)
  moreover have "on_receive ''deployment'' (pre @ ev # evs) s
           = (Raise EventError,
              (snd (watch_deployment pre s))
                \<lparr>log := log (snd (watch_deployment pre s)) @ [''Error occur when process event'']\<rparr>)"
    by (rule on_receive_raised) (simp add: deployment)
  ultimately show ?thesis using node namespace pod deployment g1 g2 g3 g4 by simp
qed

theorem watch_loops_abort_on_normalization_error_witness:
  "build_base_props incomplete_event = Raise AttributeError
   \<and> ev_type incomplete_event \<in> {ADDED, MODIFIED}
   \<and> ev_type incomplete_event = ADDED
   \<and> watch_node [complete_event, incomplete_event, complete_event] (healthy empty_graph)
       = (Raise AttributeError,
          healthy \<lparr>nodes = [new_entity 1 Node ''p2'' ''Pod'' ''2018-05-01 10:00''], edges = []\<rparr>)
   \<and> watch_pod [complete_event, incomplete_event, complete_event] (healthy empty_graph)
       = (Raise AttributeError,
          healthy \<lparr>nodes = [new_entity 1 Pod ''p2'' ''Pod'' ''2018-05-01 10:00''], edges = []\<rparr>)
   \<and> on_receive ''pod'' [complete_event, incomplete_event, complete_event] (healthy empty_graph)
       = (Raise EventError,
          (healthy \<lparr>nodes = [new_entity 1 Pod ''p2'' ''Pod'' ''2018-05-01 10:00''], edges = []\<rparr>)
            \<lparr>log := [''Error occur when process event'']\<rparr>)
   \<and> on_receive ''namespace'' [complete_event, incomplete_event, complete_event] (healthy empty_graph)
       = (Raise EventError,
          (healthy \<lparr>nodes = [(new_entity 1 Namespace ''p2'' ''Pod'' ''2018-05-01 10:00'')
                                \<lparr>status := Some ''Pending''\<rparr>], edges = []\<rparr>)
            \<lparr>log := [''Error occur when process event'']\<rparr>)
   \<and> on_receive ''deployment'' [incomplete_event, complete_event] (healthy empty_graph)
       = (Raise EventError, (healthy empty_graph)\<lparr>log := [''Error occur when process event'']\<rparr>)
   \<and> fst (watch_namespace [incomplete_event] (healthy empty_graph)) = Raise AttributeError
   \<and> watch_namespace [incomplete_event, complete_event] (healthy empty_graph)
       = watch_namespace [incomplete_event] (healthy empty_graph)
   \<and> fst (watch_pod [incomplete_event] (healthy empty_graph)) = Raise AttributeError
   \<and> watch_pod [incomplete_event, complete_event] (healthy empty_graph)
       = watch_pod [incomplete_event] (healthy empty_graph)
   \<and> fst (watch_deployment [incomplete_event] (healthy empty_graph)) = Raise AttributeError
   \<and> watch_deployment [incomplete_event, complete_event] (healthy empty_graph)
       = watch_deployment [incomplete_event] (healthy empty_graph)
   \<and> fst (watch_node [complete_event] \<lparr>db = empty_graph, outcomes = [Some CypherError], log = []\<rparr>)
       = Raise CypherError
   \<and> watch_node [complete_event, complete_event] \<lparr>db = empty_graph, outcomes = [Some CypherError], log = []\<rparr>
       = watch_node [complete_event] \<lparr>db = empty_graph, outcomes = [Some CypherError], log = []\<rparr>"
proof -
  have h1: "build_base_props incomplete_event = Raise AttributeError"
    by (simp add: incomplete_event_def pod_object_def event_defs)
  have h2: "ev_type incomplete_event \<in> {ADDED, MODIFIED}"
    by (simp add: incomplete_event_def)
  have h3: "ev_type incomplete_event = ADDED"
    by (simp add: incomplete_event_def)
  have lg: "log (healthy g) = []" for g
    by (simp add: healthy_def)
  have n: "watch_node [complete_event] (healthy empty_graph)
         = (Ok (), healthy \<lparr>nodes = [new_entity 1 Node ''p2'' ''Pod'' ''2018-05-01 10:00''], edges = []\<rparr>)"
    by (simp add: complete_event_def pod_object_def event_defs create_node_def io_defs cypher_defs)
  have p: "watch_pod [complete_event] (healthy empty_graph)
         = (Ok (), healthy \<lparr>nodes = [new_entity 1 Pod ''p2'' ''Pod'' ''2018-05-01 10:00''], edges = []\<rparr>)"
    by (simp add: complete_event_def pod_object_def event_defs upsert_pod_def io_defs cypher_defs)
  have m: "watch_namespace [complete_event] (healthy empty_graph)
         = (Ok (), healthy \<lparr>nodes = [(new_entity 1 Namespace ''p2'' ''Pod'' ''2018-05-01 10:00'')
                                        \<lparr>status := Some ''Pending''\<rparr>], edges = []\<rparr>)"
    by (simp add: complete_event_def pod_object_def event_defs upsert_namespace_def io_defs cypher_defs)
  have d: "watch_deployment [] (healthy empty_graph) = (Ok (), healthy empty_graph)"
    by (simp add: return_io_def)
  note after_one = watch_loops_abort_on_normalization_error
        [OF h1 h2, where pre = "[complete_event]" and evs = "[complete_event]" and s = "healthy empty_graph"]
  note at_once = watch_loops_abort_on_normalization_error
        [OF h1 h2, where pre = "[]" and evs = "[complete_event]" and s = "healthy empty_graph"]
  have c1: "watch_node [complete_event, incomplete_event, complete_event] (healthy empty_graph)
       = (Raise AttributeError,
          healthy \<lparr>nodes = [new_entity 1 Node ''p2'' ''Pod'' ''2018-05-01 10:00''], edges = []\<rparr>)"
    using after_one h3 by (simp add: n del: watch_node.simps)
  have c2: "watch_pod [complete_event, incomplete_event, complete_event] (healthy empty_graph)
       = (Raise AttributeError,
          healthy \<lparr>nodes = [new_entity 1 Pod ''p2'' ''Pod'' ''2018-05-01 10:00''], edges = []\<rparr>)"
    using after_one by (simp add: p del: watch_pod.simps)
  have c3: "on_receive ''pod'' [complete_event, incomplete_event, complete_event] (healthy empty_graph)
       = (Raise EventError,
          (healthy \<lparr>nodes = [new_entity 1 Pod ''p2'' ''Pod'' ''2018-05-01 10:00''], edges = []\<rparr>)
            \<lparr>log := [''Error occur when process event'']\<rparr>)"
    using after_one by (simp add: p lg del: watch_pod.simps)
  have c4: "on_receive ''namespace'' [complete_event, incomplete_event, complete_event] (healthy empty_graph)
       = (Raise EventError,
          (healthy \<lparr>nodes = [(new_entity 1 Namespace ''p2'' ''Pod'' ''2018-05-01 10:00'')
                                \<lparr>status := Some ''Pending''\<rparr>], edges = []\<rparr>)
            \<lparr>log := [''Error occur when process event'']\<rparr>)"
    using after_one by (simp add: m lg del: watch_namespace.simps)
  have c5: "on_receive ''deployment'' [incomplete_event, complete_event] (healthy empty_graph)
       = (Raise EventError, (healthy empty_graph)\<lparr>log := [''Error occur when process event'']\<rparr>)"
    using at_once by (simp add: d lg del: watch_deployment.simps)
  have r: "fst (watch_namespace [incomplete_event] (healthy empty_graph)) = Raise AttributeError"
    by (simp add: incomplete_event_def pod_object_def event_defs io_defs)
  note raised = watch_loops_abort_on_normalization_error
        [OF h1 h2, where pre = "[incomplete_event]" and evs = "[complete_event]"
           and s = "healthy empty_graph" and err = AttributeError]
  have c6: "watch_namespace [incomplete_event, complete_event] (healthy empty_graph)
       = watch_namespace [incomplete_event] (healthy empty_graph)"
    using raised r by (simp del: watch_namespace.simps)
  have rp: "fst (watch_pod [incomplete_event] (healthy empty_graph)) = Raise AttributeError"
    by (simp add: incomplete_event_def pod_object_def event_defs io_defs)
  have c7: "watch_pod [incomplete_event, complete_event] (healthy empty_graph)
       = watch_pod [incomplete_event] (healthy empty_graph)"
    using raised rp by (simp del: watch_pod.simps)
  have rd: "fst (watch_deployment [incomplete_event] (healthy empty_graph)) = Raise AttributeError"
    by (simp add: incomplete_event_def pod_object_def event_defs io_defs)
  have c8: "watch_deployment [incomplete_event, complete_event] (healthy empty_graph)
       = watch_deployment [incomplete_event] (healthy empty_graph)"
    using raised rd by (simp del: watch_deployment.simps)
  have rn: "fst (watch_node [complete_event] \<lparr>db = empty_graph, outcomes = [Some CypherError], log = []\<rparr>)
       = Raise CypherError"
    by (simp add: complete_event_def pod_object_def event_defs create_node_def io_defs)
  note store_error = watch_loops_abort_on_normalization_error
        [OF h1 h2, where pre = "[complete_event]" and evs = "[complete_event]"
           and s = "\<lparr>db = empty_graph, outcomes = [Some CypherError], log = []\<rparr>" and err = CypherError]
  have c9: "watch_node [complete_event, complete_event] \<lparr>db = empty_graph, outcomes = [Some CypherError], log = []\<rparr>
       = watch_node [complete_event] \<lparr>db = empty_graph, outcomes = [Some CypherError], log = []\<rparr>"
    using store_error rn by (simp del: watch_node.simps)
  show ?thesis
    using h1 h2 h3 c1 c2 c3 c4 c5 r c6 rp c7 rd c8 rn c9 by blast
qed

section \<open>Operations on a store that answers\<close>

text \<open>When no transaction is going to fail (\<open>outcomes s = []\<close>), each operation returns
  True and replaces the graph by its effect.\<close>

lemma write_healthy: "outcomes s = [] \<Longrightarrow> write_transaction f s = (Ok (), s\<lparr>db := f (db s)\<rparr>)"
  by (simp add: write_transaction_def)

lemma read_healthy: "outcomes s = [] \<Longrightarrow> read_transaction f s = (Ok (f (db s)), s)"
  by (simp add: read_transaction_def)

lemma if_truthy_healthy:
  assumes "outcomes s = []"
    and "\<And>v t. outcomes t = [] \<Longrightarrow> k v t = (Ok (), t\<lparr>db := f v (db t)\<rparr>)"
  shows "if_truthy x k s = (Ok (), s\<lparr>db := when_truthy x f (db s)\<rparr>)"
  using assms by (simp add: if_truthy_def when_truthy_def return_io_def split: option.splits list.splits)

lemma link_healthy:
  "outcomes s = [] \<Longrightarrow> link_deployments dps s = (Ok (), s\<lparr>db := link_effect dps (db s)\<rparr>)"
proof (induction dps arbitrary: s)
  case Nil
  then show ?case by (simp add: link_effect_def return_io_def)
next
  case (Cons dp dps)
  have step: "if_truthy (snd dp) (\<lambda>sel. write_transaction (merge_edges (named Deployment (fst dp)) scheduledTo (pod_where sel))) s
     = (Ok (), s\<lparr>db := when_truthy (snd dp) (\<lambda>sel. merge_edges (named Deployment (fst dp)) scheduledTo (pod_where sel)) (db s)\<rparr>)"
    by (rule if_truthy_healthy [OF Cons.prems]) (simp add: write_healthy)
  show ?case
    using Cons.prems by (simp add: bind_io_def step Cons.IH link_effect_def)
qed

lemma labels_step_healthy:
  assumes "outcomes t = []"
  shows "bind_io (write_transaction (update_pod_label ip (label_property ls)))
          (\<lambda>_. bind_io (read_transaction get_deployments)
          (\<lambda>deploys. if deploys \<noteq> [] then link_deployments deploys else return_io ())) t
         = (Ok (), t\<lparr>db := pod_labels_effect ip ls (db t)\<rparr>)"
  using assms
  by (simp add: bind_io_def write_healthy read_healthy link_healthy pod_labels_effect_def
        return_io_def link_effect_def)

lemma upsert_pod_healthy:
  assumes "outcomes s = []"
  shows "upsert_pod ps kw s = (Ok True, s\<lparr>db := pod_effect ps kw (db s)\<rparr>)"
proof -
  let ?g1 = "merge_entity Pod (p_name ps) (p_kind ps) (creation_time ps) (db s)"
  let ?s1 = "s\<lparr>db := ?g1\<rparr>"
  have o1: "outcomes ?s1 = []" using assms by simp
  have st2: "if_truthy (p_pod_ip ps) (\<lambda>ip. if_truthy (p_status ps) (\<lambda>st.
                write_transaction
                  (set_where (named Pod (p_name ps)) (\<lambda>e. e\<lparr>status := Some st, pod_ip := Some ip\<rparr>)))) t
      = (Ok (), t\<lparr>db := when_truthy (p_pod_ip ps) (\<lambda>ip. when_truthy (p_status ps) (\<lambda>st.
              set_where (named Pod (p_name ps)) (\<lambda>e. e\<lparr>status := Some st, pod_ip := Some ip\<rparr>))) (db t)\<rparr>)"
    if "outcomes t = []" for t
    by (rule if_truthy_healthy [OF that], rule if_truthy_healthy, assumption) (simp add: write_healthy)
  have st3: "if_truthy (kw_labels kw) (\<lambda>ls.
                bind_io (write_transaction (update_pod_label (p_pod_ip ps) (label_property ls)))
                  (\<lambda>_. bind_io (read_transaction get_deployments)
                  (\<lambda>deploys. if deploys \<noteq> [] then link_deployments deploys else return_io ()))) t
      = (Ok (), t\<lparr>db := when_truthy (kw_labels kw) (\<lambda>ls. pod_labels_effect (p_pod_ip ps) ls) (db t)\<rparr>)"
    if "outcomes t = []" for t
    by (rule if_truthy_healthy [OF that]) (rule labels_step_healthy)
  have st4: "if_truthy (kw_node_name kw) (\<lambda>n. write_transaction (add_pod_to_node (p_pod_ip ps) n)) t
      = (Ok (), t\<lparr>db := when_truthy (kw_node_name kw) (\<lambda>n. add_pod_to_node (p_pod_ip ps) n) (db t)\<rparr>)"
    if "outcomes t = []" for t
    by (rule if_truthy_healthy [OF that]) (simp add: write_healthy)
  have st5: "if_truthy (kw_namespace kw) (\<lambda>n. write_transaction (add_pod_to_namespace (p_pod_ip ps) n)) t
      = (Ok (), t\<lparr>db := when_truthy (kw_namespace kw) (\<lambda>n. add_pod_to_namespace (p_pod_ip ps) n) (db t)\<rparr>)"
    if "outcomes t = []" for t
    by (rule if_truthy_healthy [OF that]) (simp add: write_healthy)
  show ?thesis
    unfolding upsert_pod_def except_exception_def pod_effect_def
    using assms
    by (simp add: bind_io_def write_healthy st2 st3 st4 st5 return_io_def)
qed

lemma upsert_pod_db: "outcomes s = [] \<Longrightarrow> db (snd (upsert_pod ps kw s)) = pod_effect ps kw (db s)"
  by (simp add: upsert_pod_healthy)

lemma upsert_deployment_healthy:
  assumes "outcomes s = []"
  shows "upsert_deployment ps kw s = (Ok True, s\<lparr>db := dep_effect ps kw (db s)\<rparr>)"
proof -
  have st: "if_truthy x (\<lambda>v. write_transaction (f v)) t = (Ok (), t\<lparr>db := when_truthy x f (db t)\<rparr>)"
    if "outcomes t = []" for t and x :: "'b list option" and f
    by (rule if_truthy_healthy [OF that]) (simp add: write_healthy)
  show ?thesis
    unfolding upsert_deployment_def except_exception_def dep_effect_def
    using assms
    by (simp add: bind_io_def write_healthy st return_io_def)
qed

lemma upsert_namespace_healthy:
  assumes "outcomes s = []"
  shows "upsert_namespace ps s = (Ok True, s\<lparr>db := namespace_effect ps (db s)\<rparr>)"
proof -
  have st: "if_truthy x (\<lambda>v. write_transaction (f v)) t = (Ok (), t\<lparr>db := when_truthy x f (db t)\<rparr>)"
    if "outcomes t = []" for t and x :: "'b list option" and f
    by (rule if_truthy_healthy [OF that]) (simp add: write_healthy)
  show ?thesis
    unfolding upsert_namespace_def except_unavailable_def namespace_effect_def
    using assms
    by (simp add: bind_io_def write_healthy st return_io_def)
qed

lemma create_node_healthy:
  assumes "outcomes s = []"
  shows "create_node ps s
           = (Ok True, s\<lparr>db := merge_entity Node (p_name ps) (p_kind ps) (creation_time ps) (db s)\<rparr>)"
  using assms by (simp add: create_node_def except_unavailable_def bind_io_def write_healthy return_io_def)

lemma remove_pod_success:
  assumes "fst (remove_pod n s) = Ok True"
  shows "db (snd (remove_pod n s)) = detach_delete (named Pod n) (db s)"
  using assms
  by (auto simp: remove_pod_def except_exception_def bind_io_def write_transaction_def return_io_def
           split: list.splits option.splits)

section \<open>Merged entities and edges\<close>

lemma graph_eqI: "nodes g = nodes g' \<Longrightarrow> edges g = edges g' \<Longrightarrow> g = (g' :: graph)"
  by simp

lemma fold_merge_edge_set: "set (fold merge_edge xs es) = set es \<union> set xs"
  by (induction xs arbitrary: es) (auto simp: merge_edge_def)

lemma fold_merge_edge_id: "set xs \<subseteq> set es \<Longrightarrow> fold merge_edge xs es = es"
  by (induction xs arbitrary: es) (auto simp: merge_edge_def)

lemma fold_merge_edge_twice: "fold merge_edge xs (fold merge_edge xs es) = fold merge_edge xs es"
  by (rule fold_merge_edge_id) (simp add: fold_merge_edge_set)

lemma fold_merge_edge_prefix: "\<exists>new. fold merge_edge xs es = es @ new \<and> set new \<subseteq> set xs"
proof (induction xs arbitrary: es)
  case Nil
  show ?case by simp
next
  case (Cons x xs)
  obtain new where n: "fold merge_edge xs (merge_edge x es) = merge_edge x es @ new" "set new \<subseteq> set xs"
    using Cons.IH by blast
  show ?case
  proof (cases "x \<in> set es")
    case True
    then have "merge_edge x es = es" by (simp add: merge_edge_def)
    then have "fold merge_edge (x # xs) es = es @ new" using n by simp
    moreover have "set new \<subseteq> set (x # xs)" using n by auto
    ultimately show ?thesis by blast
  next
    case False
    then have "merge_edge x es = es @ [x]" by (simp add: merge_edge_def)
    then have "fold merge_edge (x # xs) es = es @ (x # new)" using n by simp
    moreover have "set (x # new) \<subseteq> set (x # xs)" using n by auto
    ultimately show ?thesis by blast
  qed
qed

lemma nodes_merge_edges [simp]: "nodes (merge_edges P r Q g) = nodes g"
  by (simp add: merge_edges_def)

lemma edges_set_where [simp]: "edges (set_where P u g) = edges g"
  by (simp add: set_where_def)

lemma nodes_set_where: "nodes (set_where P u g) = map (\<lambda>e. if P e then u e else e) (nodes g)"
  by (simp add: set_where_def)

lemma edges_merge_entity [simp]: "edges (merge_entity l n k c g) = edges g"
  by (simp add: merge_entity_def)

lemma match_pairs_map:
  assumes "\<And>e. P (h e) = P e" "\<And>e. Q (h e) = Q e" "\<And>e. ident (h e) = ident e"
  shows "match_pairs P r Q (map h ns) = match_pairs P r Q ns"
proof -
  have f: "filter R (map h xs) = map h (filter R xs)" if "\<And>e. R (h e) = R e" for R xs
    using that by (induction xs) auto
  show ?thesis
    unfolding match_pairs_def
    by (simp add: f [of P, OF assms(1)] f [of Q, OF assms(2)] assms(3) comp_def)
qed

lemma mem_match_pairs:
  "x \<in> set (match_pairs P r Q ns) \<longleftrightarrow> (\<exists>a b. a \<in> set ns \<and> P a \<and> b \<in> set ns \<and> Q b \<and> x = (ident a, r, ident b))"
  by (auto simp: match_pairs_def)

lemma filter_append_none: "(\<And>x. x \<in> set new \<Longrightarrow> \<not> P x) \<Longrightarrow> filter P (es @ new) = filter P es"
  by (induction new) auto

lemma when_truthy_if: "when_truthy x k g = (if truthy x then k (items x) g else g)"
  by (simp add: when_truthy_def truthy_def items_def split: option.splits list.splits)

lemma truthy_Some: "truthy x \<Longrightarrow> x = Some (items x)"
  by (simp add: truthy_def items_def split: option.splits)

lemma link_step:
  "when_truthy (snd dp) (\<lambda>sel. merge_edges (named Deployment (fst dp)) scheduledTo (pod_where sel)) g
     = g\<lparr>edges := fold merge_edge (link_pairs (nodes g) dp) (edges g)\<rparr>"
  by (simp add: when_truthy_def link_pairs_def merge_edges_def split: option.splits list.splits)

lemma link_effect_char:
  "link_effect dps g = g\<lparr>edges := fold merge_edge (concat (map (link_pairs (nodes g)) dps)) (edges g)\<rparr>"
proof (induction dps arbitrary: g)
  case Nil
  show ?case by (simp add: link_effect_def)
next
  case (Cons dp dps)
  have "link_effect (dp # dps) g
      = link_effect dps (g\<lparr>edges := fold merge_edge (link_pairs (nodes g) dp) (edges g)\<rparr>)"
    by (simp add: link_effect_def link_step)
  then show ?case by (simp add: Cons.IH)
qed

lemma nodes_map_nodes [simp]: "nodes (map_nodes h g) = map h (nodes g)"
  by (simp add: map_nodes_def)

lemma edges_map_nodes [simp]: "edges (map_nodes h g) = edges g"
  by (simp add: map_nodes_def)

lemma nodes_add_edges [simp]: "nodes (add_edges X g) = nodes g"
  by (simp add: add_edges_def)

lemma edges_add_edges: "edges (add_edges X g) = fold merge_edge (X (nodes g)) (edges g)"
  by (simp add: add_edges_def)

lemma add_edges_add_edges: "add_edges X (add_edges Y g) = add_edges (\<lambda>ns. Y ns @ X ns) g"
  by (simp add: add_edges_def)

lemma map_nodes_map_nodes: "map_nodes h (map_nodes k g) = map_nodes (h \<circ> k) g"
  by (simp add: map_nodes_def)

lemma map_nodes_add_edges:
  "(\<And>ns. X (map h ns) = X ns) \<Longrightarrow> map_nodes h (add_edges X g) = add_edges X (map_nodes h g)"
  by (simp add: map_nodes_def add_edges_def)

lemma set_where_map_nodes: "set_where P u = map_nodes (\<lambda>e. if P e then u e else e)"
  by (rule ext) (simp add: set_where_def map_nodes_def)

lemma has_key_new [simp]: "has_key l n k c (new_entity i l n k c)"
  by (simp add: has_key_def new_entity_def)

lemma merge_entity_has_key: "list_ex (has_key l n k c) (nodes (merge_entity l n k c g))"
  by (simp add: merge_entity_def list_ex_iff)

lemma merge_entity_id: "list_ex (has_key l n k c) (nodes g) \<Longrightarrow> merge_entity l n k c g = g"
  by (simp add: merge_entity_def)

lemma merge_entity_idem: "merge_entity l n k c (merge_entity l n k c g) = merge_entity l n k c g"
  by (rule merge_entity_id) (rule merge_entity_has_key)

lemma merge_entity_nodes_sub: "set (nodes g) \<subseteq> set (nodes (merge_entity l n k c g))"
  by (auto simp: merge_entity_def)

lemma merge_entity_nodes_cases:
  "nodes (merge_entity l n k c g) = nodes g \<and> list_ex (has_key l n k c) (nodes g)
   \<or> nodes (merge_entity l n k c g) = nodes g @ [new_entity (fresh_id g) l n k c]
     \<and> \<not> list_ex (has_key l n k c) (nodes g)"
  by (simp add: merge_entity_def)

text \<open>An upsert in normal form done twice is the upsert done once, when the updates keep
  the key of the entities and are idempotent.\<close>

lemma upsert_shape_idem:
  assumes key: "\<And>e. has_key l n k c (h e) = has_key l n k c e"
    and idem: "\<And>e. h (h e) = h e"
  shows "upsert_shape l n k c h X (upsert_shape l n k c h X g) = upsert_shape l n k c h X g"
proof -
  let ?F = "upsert_shape l n k c h X"
  have "list_ex (has_key l n k c) (nodes (?F g))"
    using merge_entity_has_key [of l n k c g]
    by (auto simp: upsert_shape_def list_ex_iff key)
  then have m: "merge_entity l n k c (?F g) = ?F g" by (rule merge_entity_id)
  have hh: "h \<circ> h = h" by (rule ext) (simp add: idem)
  have n: "nodes (map_nodes h (?F g)) = nodes (?F g)"
    by (simp add: upsert_shape_def hh)
  show ?thesis
  proof (rule graph_eqI)
    show "nodes (?F (?F g)) = nodes (?F g)"
      using n by (simp add: upsert_shape_def [of l n k c h X "?F g"] m)
    show "edges (?F (?F g)) = edges (?F g)"
      unfolding upsert_shape_def [of l n k c h X "?F g"] m edges_add_edges nodes_map_nodes edges_map_nodes
      using n
      by (simp add: upsert_shape_def [of l n k c h X g] edges_add_edges hh fold_merge_edge_twice)
  qed
qed

lemma nodes_upsert_shape:
  "nodes (upsert_shape l n k c h X g) = map h (nodes (merge_entity l n k c g))"
  by (simp add: upsert_shape_def)

lemma edges_upsert_shape_set:
  "set (edges (upsert_shape l n k c h X g)) = set (edges g) \<union> set (X (nodes (upsert_shape l n k c h X g)))"
  by (simp add: upsert_shape_def edges_add_edges fold_merge_edge_set)

lemma edges_upsert_shape_prefix:
  "\<exists>new. edges (upsert_shape l n k c h X g) = edges g @ new
         \<and> set new \<subseteq> set (X (nodes (upsert_shape l n k c h X g)))"
  using fold_merge_edge_prefix [of "X (map h (nodes (merge_entity l n k c g)))" "edges g"]
  by (simp add: upsert_shape_def edges_add_edges)

lemma add_edges_Nil [simp]: "add_edges (\<lambda>ns. []) g = g"
  by (simp add: add_edges_def)

lemma map_nodes_id [simp]: "map_nodes (\<lambda>e. e) g = g"
  by (simp add: map_nodes_def)

section \<open>The normal form of \<^verbatim>\<open>upsert_pod\<close>\<close>

lemma status_ip_stage:
  "when_truthy (p_pod_ip ps) (\<lambda>ip. when_truthy (p_status ps) (\<lambda>st.
      set_where (named Pod (p_name ps)) (\<lambda>e. e\<lparr>status := Some st, pod_ip := Some ip\<rparr>))) g
   = map_nodes (set_status_ip ps) g"
proof (cases "truthy (p_pod_ip ps) \<and> truthy (p_status ps)")
  case True
  then have "p_pod_ip ps = Some (items (p_pod_ip ps))" "p_status ps = Some (items (p_status ps))"
    by (simp_all add: truthy_Some)
  then have "set_status_ip ps = (\<lambda>e. if named Pod (p_name ps) e
       then e\<lparr>status := Some (items (p_status ps)), pod_ip := Some (items (p_pod_ip ps))\<rparr> else e)"
    using True by (simp add: set_status_ip_def fun_eq_iff)
  then show ?thesis using True by (simp add: when_truthy_if set_where_map_nodes)
next
  case False
  then have "set_status_ip ps = (\<lambda>e. e)" by (auto simp: set_status_ip_def fun_eq_iff)
  then show ?thesis using False by (auto simp: when_truthy_if)
qed

lemma labels_stage:
  "when_truthy (kw_labels kw) (\<lambda>ls. pod_labels_effect (p_pod_ip ps) ls) g
   = add_edges (scheduled_pairs kw) (map_nodes (set_labels ps kw) g)"
proof (cases "truthy (kw_labels kw)")
  case True
  have "set_labels ps kw = (\<lambda>e. if pod_with_ip (p_pod_ip ps) e
       then e\<lparr>labels := Some (label_property (items (kw_labels kw)))\<rparr> else e)"
    using True by (simp add: set_labels_def fun_eq_iff)
  then have u: "update_pod_label (p_pod_ip ps) (label_property (items (kw_labels kw))) = map_nodes (set_labels ps kw)"
    by (simp add: update_pod_label_def set_where_map_nodes)
  have d: "get_deployments x = deployments_of (nodes x)" for x
    by (simp add: get_deployments_def deployments_of_def)
  show ?thesis
    using True
    by (simp add: when_truthy_if pod_labels_effect_def u d link_effect_char add_edges_def scheduled_pairs_def)
next
  case False
  then have "set_labels ps kw = (\<lambda>e. e)" "scheduled_pairs kw = (\<lambda>ns. [])"
    by (auto simp: set_labels_def scheduled_pairs_def fun_eq_iff)
  then show ?thesis using False by (simp add: when_truthy_if)
qed

lemma node_stage:
  "when_truthy (kw_node_name kw) (\<lambda>n. add_pod_to_node (p_pod_ip ps) n) g = add_edges (runs_on_pairs ps kw) g"
  by (cases "truthy (kw_node_name kw)")
     (simp_all add: when_truthy_if add_pod_to_node_def merge_edges_def add_edges_def runs_on_pairs_def)

lemma namespace_stage:
  "when_truthy (kw_namespace kw) (\<lambda>n. add_pod_to_namespace (p_pod_ip ps) n) g = add_edges (associate_pairs ps kw) g"
  by (cases "truthy (kw_namespace kw)")
     (simp_all add: when_truthy_if add_pod_to_namespace_def merge_edges_def add_edges_def associate_pairs_def)

lemma pod_effect_shape:
  "pod_effect ps kw = upsert_shape Pod (p_name ps) (p_kind ps) (creation_time ps) (pod_update ps kw) (pod_pairs ps kw)"
proof
  fix g
  have c: "set_labels ps kw \<circ> set_status_ip ps = pod_update ps kw"
    by (rule ext) (simp add: pod_update_def)
  have p: "(\<lambda>ns. scheduled_pairs kw ns @ runs_on_pairs ps kw ns @ associate_pairs ps kw ns) = pod_pairs ps kw"
    by (rule ext) (simp add: pod_pairs_def)
  show "pod_effect ps kw g
      = upsert_shape Pod (p_name ps) (p_kind ps) (creation_time ps) (pod_update ps kw) (pod_pairs ps kw) g"
    unfolding pod_effect_def namespace_stage node_stage labels_stage status_ip_stage
    by (simp add: add_edges_add_edges map_nodes_map_nodes c upsert_shape_def p)
qed

lemma pod_update_sig [simp]:
  "ident (pod_update ps kw e) = ident e" "lbl (pod_update ps kw e) = lbl e"
  "name (pod_update ps kw e) = name e" "kind (pod_update ps kw e) = kind e"
  "created (pod_update ps kw e) = created e" "selector (pod_update ps kw e) = selector e"
  by (simp_all add: pod_update_def set_labels_def set_status_ip_def)

lemma pod_update_key: "has_key l n k c (pod_update ps kw e) = has_key l n k c e"
  by (simp add: has_key_def)

lemma pod_update_other: "lbl e \<noteq> Pod \<Longrightarrow> pod_update ps kw e = e"
  by (simp add: pod_update_def set_labels_def set_status_ip_def named_def pod_with_ip_def)

lemma pod_update_idem: "pod_update ps kw (pod_update ps kw e) = pod_update ps kw e"
  by (cases e)
     (auto simp: pod_update_def set_labels_def set_status_ip_def named_def pod_with_ip_def
           split: option.splits)

lemma pod_effect_idem: "pod_effect ps kw (pod_effect ps kw g) = pod_effect ps kw g"
  unfolding pod_effect_shape
  by (rule upsert_shape_idem) (simp_all add: pod_update_key pod_update_idem)

lemma stored_non_pod_stays:
  assumes "d \<in> set (nodes g)" "lbl d \<noteq> Pod"
  shows "d \<in> set (nodes (pod_effect ps kw g))"
proof -
  have "d \<in> set (nodes (merge_entity Pod (p_name ps) (p_kind ps) (creation_time ps) g))"
    using assms(1) merge_entity_nodes_sub by blast
  then have "pod_update ps kw d \<in> set (nodes (pod_effect ps kw g))"
    unfolding pod_effect_shape nodes_upsert_shape by simp
  then show ?thesis using assms(2) by (simp add: pod_update_other)
qed

lemma pod_where_subset:
  "pod_where sel p \<longleftrightarrow> lbl p = Pod \<and> (sel = [] \<or> (\<exists>pl. labels p = Some pl \<and> set sel \<subseteq> set pl))"
  by (cases "labels p"; cases sel) (auto simp: pod_where_def in_labels_def list_all_iff)

lemma scheduled_edge_created:
  assumes "truthy (kw_labels kw)"
    and "d \<in> set (nodes (pod_effect ps kw g))" "lbl d = Deployment" "selector d = Some sel" "sel \<noteq> []"
    and "p \<in> set (nodes (pod_effect ps kw g))" "lbl p = Pod" "labels p = Some pl" "set sel \<subseteq> set pl"
  shows "(ident d, scheduledTo, ident p) \<in> set (edges (pod_effect ps kw g))"
proof -
  let ?ns = "nodes (pod_effect ps kw g)"
  have dp: "(name d, Some sel) \<in> set (deployments_of ?ns)"
    using assms(2,3,4) by (force simp: deployments_of_def)
  have "pod_where sel p" using assms(7,8,9) by (simp add: pod_where_subset)
  then have "(ident d, scheduledTo, ident p)
               \<in> set (match_pairs (named Deployment (name d)) scheduledTo (pod_where sel) ?ns)"
    using assms(2,3,6) by (auto simp: mem_match_pairs named_def)
  moreover have "link_pairs ?ns (name d, Some sel)
                   = match_pairs (named Deployment (name d)) scheduledTo (pod_where sel) ?ns"
    using assms(5) by (cases sel) (simp_all add: link_pairs_def)
  ultimately have "(ident d, scheduledTo, ident p) \<in> set (link_pairs ?ns (name d, Some sel))"
    by simp
  then have "(ident d, scheduledTo, ident p) \<in> set (scheduled_pairs kw ?ns)"
    using dp assms(1) unfolding scheduled_pairs_def by (simp del: set_concat add: set_concat) blast
  then have "(ident d, scheduledTo, ident p) \<in> set (pod_pairs ps kw ?ns)"
    by (simp add: pod_pairs_def)
  then show ?thesis
    using edges_upsert_shape_set
            [of Pod "p_name ps" "p_kind ps" "creation_time ps" "pod_update ps kw" "pod_pairs ps kw" g]
    by (simp add: pod_effect_shape)
qed


lemma pod_effect_edges:
  "\<exists>new. edges (pod_effect ps kw g) = edges g @ new
         \<and> set new \<subseteq> set (pod_pairs ps kw (nodes (pod_effect ps kw g)))"
  unfolding pod_effect_shape by (rule edges_upsert_shape_prefix)



lemma mem_link_pairs:
  "x \<in> set (link_pairs ns dp) \<longleftrightarrow>
     (\<exists>sel d p. snd dp = Some sel \<and> sel \<noteq> [] \<and> d \<in> set ns \<and> named Deployment (fst dp) d
        \<and> p \<in> set ns \<and> pod_where sel p \<and> x = (ident d, scheduledTo, ident p))"
  by (cases "snd dp"; cases "the (snd dp)") (auto simp: link_pairs_def mem_match_pairs)

lemma mem_scheduled_pairs:
  assumes "x \<in> set (scheduled_pairs kw ns)"
  shows "\<exists>d p sel. d \<in> set ns \<and> lbl d = Deployment \<and> p \<in> set ns \<and> sel \<noteq> [] \<and> pod_where sel p
           \<and> x = (ident d, scheduledTo, ident p)"
proof -
  obtain dp where "dp \<in> set (deployments_of ns)" "x \<in> set (link_pairs ns dp)"
    using assms by (auto simp: scheduled_pairs_def split: if_splits)
  then show ?thesis unfolding mem_link_pairs by (auto simp: named_def)
qed

lemma scheduled_pairs_rel: "(a, r, b) \<in> set (scheduled_pairs kw ns) \<Longrightarrow> r = scheduledTo"
  using mem_scheduled_pairs by fastforce

lemma named_pod_after:
  assumes "truthy (p_pod_ip ps)" "truthy (p_status ps)"
    and "p \<in> set (nodes (pod_effect ps kw g))" "named Pod (p_name ps) p"
  shows "pod_ip p = p_pod_ip ps \<and> (truthy (kw_labels kw) \<longrightarrow> labels p = Some (label_property (items (kw_labels kw))))"
proof -
  obtain e where e': "p = pod_update ps kw e"
    using assms(3) unfolding pod_effect_shape nodes_upsert_shape by auto
  have n: "named Pod (p_name ps) e" using assms(4) e' by (simp add: named_def)
  show ?thesis
    using assms(1,2) n truthy_Some [OF assms(1)] unfolding e'
    by (cases "p_pod_ip ps") (auto simp: pod_update_def set_labels_def set_status_ip_def pod_with_ip_def named_def)
qed

lemma named_pod_exists: "\<exists>p\<in>set (nodes (pod_effect ps kw g)). has_key Pod (p_name ps) (p_kind ps) (creation_time ps) p"
  using merge_entity_has_key [of Pod "p_name ps" "p_kind ps" "creation_time ps" g]
  unfolding pod_effect_shape nodes_upsert_shape
  by (auto simp: list_ex_iff pod_update_key)

section \<open>Pods linked to deployments\<close>





section \<open>The selector match\<close>






section \<open>A pod without address\<close>

lemma no_ip_update: "p_pod_ip ps = None \<Longrightarrow> pod_update ps kw e = e"
  by (simp add: pod_update_def set_labels_def set_status_ip_def pod_with_ip_def truthy_def)

lemma no_ip_pairs:
  "p_pod_ip ps = None \<Longrightarrow> pod_pairs ps kw ns = scheduled_pairs kw ns"
  by (simp add: pod_pairs_def runs_on_pairs_def associate_pairs_def match_pairs_def pod_with_ip_def)

lemma pod_where_labelled: "sel \<noteq> [] \<Longrightarrow> pod_where sel p \<Longrightarrow> lbl p = Pod \<and> labels p \<noteq> None"
  by (auto simp: pod_where_subset)

lemma without_ip:
  assumes "p_pod_ip ps = None" and g': "g' = pod_effect ps kw g"
  shows "nodes g' = nodes (merge_entity Pod (p_name ps) (p_kind ps) (creation_time ps) g)"
    and "filter (\<lambda>(a, r, b). r \<noteq> scheduledTo) (edges g') = filter (\<lambda>(a, r, b). r \<noteq> scheduledTo) (edges g)"
    and "\<forall>x\<in>set (edges g') - set (edges g). \<exists>d\<in>set (nodes g). \<exists>p\<in>set (nodes g).
           lbl d = Deployment \<and> lbl p = Pod \<and> labels p \<noteq> None \<and> x = (ident d, scheduledTo, ident p)"
proof -
  let ?m = "merge_entity Pod (p_name ps) (p_kind ps) (creation_time ps) g"
  have id: "pod_update ps kw = (\<lambda>e. e)" using assms(1) by (simp add: no_ip_update fun_eq_iff)
  show n: "nodes g' = nodes ?m"
    unfolding g' pod_effect_shape nodes_upsert_shape id by simp
  obtain new where new: "edges g' = edges g @ new" "set new \<subseteq> set (scheduled_pairs kw (nodes g'))"
    using pod_effect_edges [of ps kw g] assms by (auto simp: no_ip_pairs)
  have "\<not> (case x of (a, r, b) \<Rightarrow> r \<noteq> scheduledTo)" if "x \<in> set new" for x
  proof -
    obtain a r b where x: "x = (a, r, b)" by (cases x) auto
    then have "(a, r, b) \<in> set (scheduled_pairs kw (nodes g'))" using that new(2) by auto
    then have "r = scheduledTo" by (rule scheduled_pairs_rel)
    then show ?thesis using x by simp
  qed
  then show "filter (\<lambda>(a, r, b). r \<noteq> scheduledTo) (edges g') = filter (\<lambda>(a, r, b). r \<noteq> scheduledTo) (edges g)"
    unfolding new(1) by (rule filter_append_none)
  have old: "e \<in> set (nodes g)" if "e \<in> set (nodes g')" "lbl e \<noteq> Pod \<or> labels e \<noteq> None" for e
    using that n merge_entity_nodes_cases [of Pod "p_name ps" "p_kind ps" "creation_time ps" g]
    by (auto simp: new_entity_def)
  show "\<forall>x\<in>set (edges g') - set (edges g). \<exists>d\<in>set (nodes g). \<exists>p\<in>set (nodes g).
           lbl d = Deployment \<and> lbl p = Pod \<and> labels p \<noteq> None \<and> x = (ident d, scheduledTo, ident p)"
  proof
    fix x assume "x \<in> set (edges g') - set (edges g)"
    then have "x \<in> set (scheduled_pairs kw (nodes g'))" using new by auto
    then obtain d p sel where dp: "d \<in> set (nodes g')" "lbl d = Deployment" "p \<in> set (nodes g')"
        "sel \<noteq> []" "pod_where sel p" "x = (ident d, scheduledTo, ident p)"
      using mem_scheduled_pairs by blast
    have p: "lbl p = Pod \<and> labels p \<noteq> None" using dp(4,5) by (rule pod_where_labelled)
    have "d \<in> set (nodes g)" using old [of d] dp(1,2) by simp
    moreover have "p \<in> set (nodes g)" using old [of p] dp(3) p by simp
    ultimately show "\<exists>d\<in>set (nodes g). \<exists>p\<in>set (nodes g).
           lbl d = Deployment \<and> lbl p = Pod \<and> labels p \<noteq> None \<and> x = (ident d, scheduledTo, ident p)"
      using dp(2,6) p by blast
  qed
qed

lemma with_ip:
  assumes t: "truthy (p_pod_ip ps)" "truthy (p_status ps)" and g': "g' = pod_effect ps kw g"
    and p: "p \<in> set (nodes g')" "named Pod (p_name ps) p"
  shows "pod_ip p = p_pod_ip ps"
    and "\<forall>n\<in>set (nodes g). truthy (kw_node_name kw) \<and> named Node (items (kw_node_name kw)) n
           \<longrightarrow> (ident p, runsOn, ident n) \<in> set (edges g')"
    and "\<forall>n\<in>set (nodes g). truthy (kw_namespace kw) \<and> named Namespace (items (kw_namespace kw)) n
           \<longrightarrow> (ident p, associateTo, ident n) \<in> set (edges g')"
    and "\<forall>d\<in>set (nodes g). \<forall>sel. truthy (kw_labels kw) \<and> lbl d = Deployment \<and> selector d = Some sel
             \<and> sel \<noteq> [] \<and> set sel \<subseteq> set (label_property (items (kw_labels kw)))
           \<longrightarrow> (ident d, scheduledTo, ident p) \<in> set (edges g')"
proof -
  have after: "pod_ip p = p_pod_ip ps"
      "truthy (kw_labels kw) \<longrightarrow> labels p = Some (label_property (items (kw_labels kw)))"
    using named_pod_after [OF t, of p kw g] p unfolding g' by simp_all
  show "pod_ip p = p_pod_ip ps" by (rule after(1))
  have ip: "pod_with_ip (p_pod_ip ps) p"
    using after(1) p(2) truthy_Some [OF t(1)] by (cases "p_pod_ip ps") (auto simp: pod_with_ip_def named_def)
  have e: "set (edges g') = set (edges g) \<union> set (pod_pairs ps kw (nodes g'))"
    unfolding g' pod_effect_shape by (rule edges_upsert_shape_set)
  have stay: "n \<in> set (nodes g')" if "n \<in> set (nodes g)" "lbl n \<noteq> Pod" for n
    unfolding g' using that by (rule stored_non_pod_stays)
  show "\<forall>n\<in>set (nodes g). truthy (kw_node_name kw) \<and> named Node (items (kw_node_name kw)) n
           \<longrightarrow> (ident p, runsOn, ident n) \<in> set (edges g')"
  proof (intro ballI impI)
    fix n assume n: "n \<in> set (nodes g)" "truthy (kw_node_name kw) \<and> named Node (items (kw_node_name kw)) n"
    then have "n \<in> set (nodes g')" using stay [of n] by (simp add: named_def)
    then have "(ident p, runsOn, ident n) \<in> set (runs_on_pairs ps kw (nodes g'))"
      using n(2) ip p(1) by (auto simp: runs_on_pairs_def mem_match_pairs)
    then show "(ident p, runsOn, ident n) \<in> set (edges g')" using e by (simp add: pod_pairs_def)
  qed
  show "\<forall>n\<in>set (nodes g). truthy (kw_namespace kw) \<and> named Namespace (items (kw_namespace kw)) n
           \<longrightarrow> (ident p, associateTo, ident n) \<in> set (edges g')"
  proof (intro ballI impI)
    fix n assume n: "n \<in> set (nodes g)" "truthy (kw_namespace kw) \<and> named Namespace (items (kw_namespace kw)) n"
    then have "n \<in> set (nodes g')" using stay [of n] by (simp add: named_def)
    then have "(ident p, associateTo, ident n) \<in> set (associate_pairs ps kw (nodes g'))"
      using n(2) ip p(1) by (auto simp: associate_pairs_def mem_match_pairs)
    then show "(ident p, associateTo, ident n) \<in> set (edges g')" using e by (simp add: pod_pairs_def)
  qed
  show "\<forall>d\<in>set (nodes g). \<forall>sel. truthy (kw_labels kw) \<and> lbl d = Deployment \<and> selector d = Some sel
             \<and> sel \<noteq> [] \<and> set sel \<subseteq> set (label_property (items (kw_labels kw)))
           \<longrightarrow> (ident d, scheduledTo, ident p) \<in> set (edges g')"
  proof (intro ballI allI impI)
    fix d sel
    assume d: "d \<in> set (nodes g)"
      and h: "truthy (kw_labels kw) \<and> lbl d = Deployment \<and> selector d = Some sel
             \<and> sel \<noteq> [] \<and> set sel \<subseteq> set (label_property (items (kw_labels kw)))"
    have d': "d \<in> set (nodes (pod_effect ps kw g))" using stay [of d] d h g' by simp
    have lp: "lbl p = Pod" using p(2) by (simp add: named_def)
    have "labels p = Some (label_property (items (kw_labels kw)))" using after(2) h by simp
    then show "(ident d, scheduledTo, ident p) \<in> set (edges g')"
      unfolding g'
      using scheduled_edge_created [of kw d ps g sel p "label_property (items (kw_labels kw))"] d' h lp p(1) g'
      by simp
  qed
qed

text \<open>
  C7, as the specification states it: the upsert of a pod without address creates the
  entity and no edge, every join being keyed by the address, and a later upsert of the pod
  with the address creates the edges. It fails twice. The \<^verbatim>\<open>scheduledTo\<close> join is keyed
  by the labels, not by the address: the upsert of pod p2 without address links the stored
  deployment web to the stored pod p1. And an upsert with the address but without status
  leaves the address unset and creates no edge.
\<close>

theorem upsert_pod_without_ip_counterexample:
  "p_pod_ip (pod_props ''p2'' (Some ''Pending'') None) = None
   \<and> edges (db then_deployment) = []
   \<and> edges (db (snd (upsert_pod (pod_props ''p2'' (Some ''Pending'') None) (labelled [(''app'', ''y'')]) then_deployment)))
       = [(2, scheduledTo, 1)]
   \<and> p_pod_ip (pod_props ''p2'' None (Some ''10.0.0.2'')) = Some ''10.0.0.2''
   \<and> nodes (db cluster_pending) = [stored_node, stored_namespace, cluster_web, pending_pod]
   \<and> edges (db (snd (upsert_pod (pod_props ''p2'' None (Some ''10.0.0.2'')) placed cluster_pending))) = []"
proof -
  have a: "edges (db then_deployment) = []"
    by (simp add: then_deployment_eval healthy_def)
  have b: "edges (db (snd (upsert_pod (pod_props ''p2'' (Some ''Pending'') None) (labelled [(''app'', ''y'')]) then_deployment)))
       = [(2, scheduledTo, 1)]"
    by (simp add: other_pod_eval healthy_def)
  have c: "nodes (db cluster_pending) = [stored_node, stored_namespace, cluster_web, pending_pod]"
    by (simp add: cluster_pending_store healthy_def)
  have d: "edges (db (snd (upsert_pod (pod_props ''p2'' None (Some ''10.0.0.2'')) placed cluster_pending))) = []"
    by (simp add: cluster_no_status_eval healthy_def)
  show ?thesis using a b c d by (simp add: pod_props_def)
qed

text \<open>
  C7, amended. On a store that answers, the upsert of a pod without address returns True
  and creates the entity; it changes no other entity and no \<^verbatim>\<open>runsOn\<close> or
  \<^verbatim>\<open>associateTo\<close> edge, and every edge it adds is a \<^verbatim>\<open>scheduledTo\<close> edge from a stored
  deployment to a stored pod that has labels. An upsert that carries both the address and
  the status sets the address of the pod, and gives the pod the \<^verbatim>\<open>runsOn\<close> edge to the
  stored node of the call, the \<^verbatim>\<open>associateTo\<close> edge to the stored namespace of the call,
  and the \<^verbatim>\<open>scheduledTo\<close> edge from every stored deployment whose non-empty selector is
  contained in the labels of the call.
\<close>

theorem upsert_pod_without_ip_then_with_ip:
  assumes "outcomes s = []" and "g' = db (snd (upsert_pod ps kw s))"
  shows "fst (upsert_pod ps kw s) = Ok True
       \<and> (\<exists>p\<in>set (nodes g'). has_key Pod (p_name ps) (p_kind ps) (creation_time ps) p)
       \<and> (p_pod_ip ps = None \<longrightarrow>
            nodes g' = nodes (merge_entity Pod (p_name ps) (p_kind ps) (creation_time ps) (db s))
          \<and> filter (\<lambda>(a, r, b). r \<noteq> scheduledTo) (edges g') = filter (\<lambda>(a, r, b). r \<noteq> scheduledTo) (edges (db s))
          \<and> (\<forall>x\<in>set (edges g') - set (edges (db s)). \<exists>d\<in>set (nodes (db s)). \<exists>p\<in>set (nodes (db s)).
                lbl d = Deployment \<and> lbl p = Pod \<and> labels p \<noteq> None \<and> x = (ident d, scheduledTo, ident p)))
       \<and> (truthy (p_pod_ip ps) \<and> truthy (p_status ps) \<longrightarrow>
            (\<forall>p\<in>set (nodes g'). named Pod (p_name ps) p \<longrightarrow>
               pod_ip p = p_pod_ip ps
             \<and> (\<forall>n\<in>set (nodes (db s)). truthy (kw_node_name kw) \<and> named Node (items (kw_node_name kw)) n
                  \<longrightarrow> (ident p, runsOn, ident n) \<in> set (edges g'))
             \<and> (\<forall>n\<in>set (nodes (db s)). truthy (kw_namespace kw) \<and> named Namespace (items (kw_namespace kw)) n
                  \<longrightarrow> (ident p, associateTo, ident n) \<in> set (edges g'))
             \<and> (\<forall>d\<in>set (nodes (db s)). \<forall>sel. truthy (kw_labels kw) \<and> lbl d = Deployment \<and> selector d = Some sel
                    \<and> sel \<noteq> [] \<and> set sel \<subseteq> set (label_property (items (kw_labels kw)))
                  \<longrightarrow> (ident d, scheduledTo, ident p) \<in> set (edges g'))))"
proof -
  have g': "g' = pod_effect ps kw (db s)" using assms by (simp add: upsert_pod_db)
  have r: "fst (upsert_pod ps kw s) = Ok True" using assms(1) by (simp add: upsert_pod_healthy)
  have k: "\<exists>p\<in>set (nodes g'). has_key Pod (p_name ps) (p_kind ps) (creation_time ps) p"
    unfolding g' by (rule named_pod_exists)
  show ?thesis
    using r k without_ip [OF _ g'] with_ip [OF _ _ g'] by simp
qed

theorem upsert_pod_without_ip_then_with_ip_witness:
  "outcomes cluster = [] \<and> outcomes cluster_pending = []
   \<and> p_pod_ip (pod_props ''p2'' (Some ''Pending'') None) = None
   \<and> truthy (p_pod_ip (pod_props ''p2'' (Some ''Running'') (Some ''10.0.0.2'')))
   \<and> truthy (p_status (pod_props ''p2'' (Some ''Running'') (Some ''10.0.0.2'')))
   \<and> fst (upsert_pod (pod_props ''p2'' (Some ''Pending'') None) placed cluster) = Ok True
   \<and> filter (\<lambda>(a, r, b). r \<noteq> scheduledTo) (edges (db cluster_pending))
       = filter (\<lambda>(a, r, b). r \<noteq> scheduledTo) (edges (db cluster))
   \<and> nodes (db cluster_pending) = [stored_node, stored_namespace, cluster_web, pending_pod]
   \<and> edges (db cluster_pending) = []
   \<and> (ident running_pod, runsOn, ident stored_node)
       \<in> set (edges (db (snd (upsert_pod (pod_props ''p2'' (Some ''Running'') (Some ''10.0.0.2'')) placed cluster_pending))))
   \<and> edges (db (snd (upsert_pod (pod_props ''p2'' (Some ''Running'') (Some ''10.0.0.2'')) placed cluster_pending)))
       = [(3, scheduledTo, 4), (4, runsOn, 1), (4, associateTo, 2)]"
proof -
  let ?pending = "pod_props ''p2'' (Some ''Pending'') None"
  let ?running = "pod_props ''p2'' (Some ''Running'') (Some ''10.0.0.2'')"
  have h1: "outcomes cluster = []" by (simp add: cluster_eval healthy_def)
  have h2: "outcomes cluster_pending = []" by (simp add: cluster_pending_store healthy_def)
  have h3: "p_pod_ip ?pending = None" by (simp add: pod_props_def)
  have h4: "truthy (p_pod_ip ?running) \<and> truthy (p_status ?running)" by (simp add: pod_props_def truthy_def)
  note first = upsert_pod_without_ip_then_with_ip [OF h1 refl, of ?pending placed]
  note second = upsert_pod_without_ip_then_with_ip [OF h2 refl, of ?running placed]
  have a: "fst (upsert_pod ?pending placed cluster) = Ok True" using first by blast
  have b: "filter (\<lambda>(a, r, b). r \<noteq> scheduledTo) (edges (db cluster_pending))
       = filter (\<lambda>(a, r, b). r \<noteq> scheduledTo) (edges (db cluster))"
    unfolding cluster_pending_def using first h3 by blast
  have p: "running_pod \<in> set (nodes (db (snd (upsert_pod ?running placed cluster_pending))))"
    by (simp add: cluster_running_eval healthy_def)
  have p': "named Pod (p_name ?running) running_pod"
    by (simp add: named_def example_defs new_entity_def)
  have n: "stored_node \<in> set (nodes (db cluster_pending))" "truthy (kw_node_name placed)"
          "named Node (items (kw_node_name placed)) stored_node"
    by (simp_all add: cluster_pending_store healthy_def named_def truthy_def items_def example_defs new_entity_def)
  have c: "(ident running_pod, runsOn, ident stored_node)
       \<in> set (edges (db (snd (upsert_pod ?running placed cluster_pending))))"
    using second h4 p p' n by blast
  have d: "nodes (db cluster_pending) = [stored_node, stored_namespace, cluster_web, pending_pod]"
          "edges (db cluster_pending) = []"
    by (simp_all add: cluster_pending_store healthy_def)
  have e: "edges (db (snd (upsert_pod ?running placed cluster_pending)))
       = [(3, scheduledTo, 4), (4, runsOn, 1), (4, associateTo, 2)]"
    by (simp add: cluster_running_eval healthy_def)
  show ?thesis
    using h1 h2 h3 h4 a b c d e by blast
qed

section \<open>Removing a pod\<close>

text \<open>
  C8. \<^verbatim>\<open>remove_pod(name)\<close>, when the store commits its transaction, returns True and
  deletes the pods of that name with their edges: the entities afterwards are the entities
  that are not a pod of the name, and the edges afterwards are the edges that neither start
  nor end at a pod of the name, both in their order. So no pod of the name is left, no edge
  that remains refers to a removed pod, and every other entity and edge is unchanged.
\<close>

theorem remove_pod_deletes_entity_and_edges:
  assumes "outcomes s = [] \<or> (\<exists>os. outcomes s = None # os)" and "g' = db (snd (remove_pod n s))"
  shows "fst (remove_pod n s) = Ok True
       \<and> nodes g' = filter (\<lambda>e. \<not> named Pod n e) (nodes (db s))
       \<and> edges g' = filter (\<lambda>(a, r, b). \<forall>p\<in>set (nodes (db s)). named Pod n p \<longrightarrow> a \<noteq> ident p \<and> b \<noteq> ident p)
                      (edges (db s))
       \<and> (\<forall>e\<in>set (nodes g'). \<not> named Pod n e)
       \<and> (\<forall>(a, r, b)\<in>set (edges g'). \<forall>p\<in>set (nodes (db s)). named Pod n p \<longrightarrow> a \<noteq> ident p \<and> b \<noteq> ident p)"
proof -
  have r: "fst (remove_pod n s) = Ok True"
    using assms(1)
    by (auto simp: remove_pod_def except_exception_def bind_io_def write_transaction_def return_io_def)
  have g': "g' = detach_delete (named Pod n) (db s)"
    using r assms(2) by (simp add: remove_pod_success)
  have n: "nodes g' = filter (\<lambda>e. \<not> named Pod n e) (nodes (db s))"
    by (simp add: g' detach_delete_def)
  have e: "edges g' = filter (\<lambda>(a, r, b). \<forall>p\<in>set (nodes (db s)). named Pod n p \<longrightarrow> a \<noteq> ident p \<and> b \<noteq> ident p)
                      (edges (db s))"
    unfolding g' detach_delete_def Let_def by (auto intro!: filter_cong)
  show ?thesis
    using r n e by auto
qed

theorem remove_pod_deletes_entity_and_edges_witness:
  "outcomes cluster_linked = []
   \<and> nodes (db cluster_linked) = [stored_node, stored_namespace, cluster_web, running_pod]
   \<and> edges (db cluster_linked) = [(3, scheduledTo, 4), (4, runsOn, 1), (4, associateTo, 2)]
   \<and> fst (remove_pod ''p2'' cluster_linked) = Ok True
   \<and> nodes (db (snd (remove_pod ''p2'' cluster_linked)))
       = filter (\<lambda>e. \<not> named Pod ''p2'' e) (nodes (db cluster_linked))
   \<and> nodes (db (snd (remove_pod ''p2'' cluster_linked))) = [stored_node, stored_namespace, cluster_web]
   \<and> edges (db (snd (remove_pod ''p2'' cluster_linked))) = []"
proof -
  have h: "outcomes cluster_linked = []" by (simp add: cluster_linked_eval healthy_def)
  then have h': "outcomes cluster_linked = [] \<or> (\<exists>os. outcomes cluster_linked = None # os)" by (rule disjI1)
  have a: "nodes (db cluster_linked) = [stored_node, stored_namespace, cluster_web, running_pod]"
          "edges (db cluster_linked) = [(3, scheduledTo, 4), (4, runsOn, 1), (4, associateTo, 2)]"
    by (simp_all add: cluster_linked_eval healthy_def)
  have b: "nodes (db (snd (remove_pod ''p2'' cluster_linked))) = [stored_node, stored_namespace, cluster_web]"
          "edges (db (snd (remove_pod ''p2'' cluster_linked))) = []"
    by (simp_all add: remove_linked_eval healthy_def)
  show ?thesis
    using h a b remove_pod_deletes_entity_and_edges [OF h' refl] by blast
qed

section \<open>The frame of \<^verbatim>\<open>upsert_deployment\<close>\<close>

lemma io_rel_return: "(\<And>g. R g g) \<Longrightarrow> io_rel R (return_io v)"
  by (simp add: io_rel_def return_io_def)

lemma io_rel_bind:
  assumes "\<And>a b c. R a b \<Longrightarrow> R b c \<Longrightarrow> R a c" and "io_rel R m" and "\<And>v. io_rel R (k v)"
  shows "io_rel R (bind_io m k)"
  unfolding io_rel_def
proof
  fix s
  obtain r s' where ms: "m s = (r, s')" by (cases "m s")
  have 1: "R (db s) (db s')" using assms(2) ms by (auto simp: io_rel_def dest: spec [of _ s])
  show "R (db s) (db (snd (bind_io m k s)))"
  proof (cases r)
    case (Ok v)
    have "R (db s') (db (snd (k v s')))" using assms(3) [of v] by (simp add: io_rel_def)
    then show ?thesis using 1 ms Ok assms(1) by (auto simp: bind_io_def)
  next
    case (Raise e)
    then show ?thesis using 1 ms by (simp add: bind_io_def)
  qed
qed

lemma io_rel_write:
  assumes "\<And>g. R g g" and "\<And>g. R g (f g)"
  shows "io_rel R (write_transaction f)"
  using assms by (auto simp: io_rel_def write_transaction_def split: list.splits option.splits)

lemma io_rel_if_truthy:
  assumes "\<And>g. R g g" and "\<And>v. x = Some v \<Longrightarrow> v \<noteq> [] \<Longrightarrow> io_rel R (k v)"
  shows "io_rel R (if_truthy x k)"
  using assms by (auto simp: if_truthy_def io_rel_return split: option.splits list.splits)

lemma io_rel_except:
  assumes "io_rel R m"
  shows "io_rel R (except_exception msg m)"
  unfolding io_rel_def
proof
  fix s
  obtain r s' where ms: "m s = (r, s')" by (cases "m s")
  then have "R (db s) (db s')" using assms by (auto simp: io_rel_def dest: spec [of _ s])
  then show "R (db s) (db (snd (except_exception msg m s)))"
    using ms by (cases r) (simp_all add: except_exception_def)
qed

lemma dep_frame_refl: "dep_frame n ns g g"
  by (simp add: dep_frame_def)

lemma dep_frame_trans:
  assumes "dep_frame n ns a b" and "dep_frame n ns b c"
  shows "dep_frame n ns a c"
proof -
  obtain n1 where 1: "edges b = edges a @ n1"
      "\<forall>x\<in>set n1. \<exists>i j. x = (i, associateTo, j) \<and> truthy ns \<and> (i, Deployment, n) \<in> sigs b \<and> (j, Namespace, items ns) \<in> sigs b"
    using assms(1) by (auto simp: dep_frame_def)
  obtain n2 where 2: "edges c = edges b @ n2"
      "\<forall>x\<in>set n2. \<exists>i j. x = (i, associateTo, j) \<and> truthy ns \<and> (i, Deployment, n) \<in> sigs c \<and> (j, Namespace, items ns) \<in> sigs c"
    using assms(2) by (auto simp: dep_frame_def)
  have s: "sigs a \<subseteq> sigs b" "sigs b \<subseteq> sigs c" using assms by (auto simp: dep_frame_def)
  have "edges c = edges a @ (n1 @ n2)" using 1 2 by simp
  moreover have "\<forall>x\<in>set (n1 @ n2). \<exists>i j. x = (i, associateTo, j) \<and> truthy ns
      \<and> (i, Deployment, n) \<in> sigs c \<and> (j, Namespace, items ns) \<in> sigs c"
    using 1(2) 2(2) s(2) by fastforce
  ultimately show ?thesis using s unfolding dep_frame_def by blast
qed

lemma sigs_merge_entity: "sigs g \<subseteq> sigs (merge_entity l m k c g)"
  by (auto simp: sigs_def merge_entity_def)

lemma dep_frame_merge_entity: "dep_frame n ns g (merge_entity l m k c g)"
  using sigs_merge_entity [of g l m k c] by (simp add: dep_frame_def)

lemma dep_frame_set_where:
  assumes "\<And>e. ident (u e) = ident e \<and> lbl (u e) = lbl e \<and> name (u e) = name e"
  shows "dep_frame n ns g (set_where P u g)"
proof -
  have "map (\<lambda>e. (ident e, lbl e, name e)) (map (\<lambda>e. if P e then u e else e) (nodes g))
      = map (\<lambda>e. (ident e, lbl e, name e)) (nodes g)"
    by (simp add: assms)
  then have "set (map (\<lambda>e. (ident e, lbl e, name e)) (nodes (set_where P u g)))
      = set (map (\<lambda>e. (ident e, lbl e, name e)) (nodes g))"
    by (simp only: nodes_set_where)
  then have "sigs (set_where P u g) = sigs g"
    by (simp add: sigs_def)
  then show ?thesis by (simp add: dep_frame_def)
qed

lemma dep_frame_merge_edges:
  assumes "ns = Some m" and "m \<noteq> []"
  shows "dep_frame n ns g (merge_edges (named Deployment n) associateTo (named Namespace m) g)"
proof -
  let ?g' = "merge_edges (named Deployment n) associateTo (named Namespace m) g"
  obtain new where new: "edges ?g' = edges g @ new"
      "set new \<subseteq> set (match_pairs (named Deployment n) associateTo (named Namespace m) (nodes g))"
    using fold_merge_edge_prefix [of "match_pairs (named Deployment n) associateTo (named Namespace m) (nodes g)" "edges g"]
    by (auto simp: merge_edges_def)
  have s: "sigs ?g' = sigs g" by (simp add: sigs_def)
  have t: "truthy ns" "items ns = m" using assms by (simp_all add: truthy_def items_def)
  have "\<exists>i j. x = (i, associateTo, j) \<and> truthy ns \<and> (i, Deployment, n) \<in> sigs ?g' \<and> (j, Namespace, items ns) \<in> sigs ?g'"
    if "x \<in> set new" for x
  proof -
    have "x \<in> set (match_pairs (named Deployment n) associateTo (named Namespace m) (nodes g))"
      using that new(2) by blast
    then obtain a b where ab: "a \<in> set (nodes g)" "named Deployment n a" "b \<in> set (nodes g)" "named Namespace m b"
        "x = (ident a, associateTo, ident b)"
      unfolding mem_match_pairs by blast
    have "(ident a, Deployment, n) \<in> sigs g" "(ident b, Namespace, m) \<in> sigs g"
      using ab(1-4) by (force simp: sigs_def named_def)+
    then show ?thesis using ab(5) t s by auto
  qed
  then show ?thesis using new(1) s unfolding dep_frame_def by blast
qed

lemma upsert_deployment_frame: "io_rel (dep_frame (p_name ps) (kw_namespace kw)) (upsert_deployment ps kw)"
proof -
  let ?R = "dep_frame (p_name ps) (kw_namespace kw)"
  note tr = dep_frame_trans [of "p_name ps" "kw_namespace kw"]
  have w: "io_rel ?R (write_transaction (set_where P u))"
    if "\<And>e. ident (u e) = ident e \<and> lbl (u e) = lbl e \<and> name (u e) = name e" for P u
    by (rule io_rel_write) (simp_all add: dep_frame_refl dep_frame_set_where that)
  have 1: "io_rel ?R (write_transaction (merge_entity Deployment (p_name ps) (p_kind ps) (creation_time ps)))"
    by (rule io_rel_write) (simp_all add: dep_frame_refl dep_frame_merge_entity)
  have 2: "io_rel ?R (if truthy_int (p_ready_replicas ps) \<and> truthy_int (p_replicas ps)
              then write_transaction
                     (set_where (named Deployment (p_name ps))
                        (\<lambda>e. e\<lparr>replicas := p_replicas ps, ready_replicas := p_ready_replicas ps\<rparr>))
              else return_io ())"
    by (simp add: w io_rel_return dep_frame_refl)
  have 3: "io_rel ?R (if_truthy (kw_labels kw) (\<lambda>ls.
                write_transaction
                  (set_where (named Deployment (p_name ps)) (\<lambda>e. e\<lparr>labels := Some (label_property ls)\<rparr>))))"
    by (rule io_rel_if_truthy) (simp_all add: w dep_frame_refl)
  have 4: "io_rel ?R (if_truthy (kw_namespace kw) (\<lambda>n.
                write_transaction
                  (merge_edges (named Deployment (p_name ps)) associateTo (named Namespace n))))"
    by (rule io_rel_if_truthy, rule dep_frame_refl, rule io_rel_write)
       (simp_all add: dep_frame_refl dep_frame_merge_edges)
  have 5: "io_rel ?R (if_truthy (kw_selector kw) (\<lambda>sl.
                write_transaction
                  (set_where (named Deployment (p_name ps)) (\<lambda>e. e\<lparr>selector := Some (label_property sl)\<rparr>))))"
    by (rule io_rel_if_truthy) (simp_all add: w dep_frame_refl)
  have 6: "io_rel ?R (return_io True)" by (rule io_rel_return) (rule dep_frame_refl)
  show ?thesis
    unfolding upsert_deployment_def
    by (intro io_rel_except io_rel_bind [OF tr] 1 2 3 4 5 6)
qed

lemma upsert_deployment_dep_frame:
  "dep_frame (p_name ps) (kw_namespace kw) (db s) (db (snd (upsert_deployment ps kw s)))"
proof -
  have "io_rel (dep_frame (p_name ps) (kw_namespace kw)) (upsert_deployment ps kw)"
    by (rule upsert_deployment_frame)
  then show ?thesis unfolding io_rel_def by (rule spec)
qed

lemma dep_frame_edges:
  assumes "dep_frame n ns g g'"
  shows "\<exists>new. edges g' = edges g @ new
             \<and> (\<forall>x\<in>set new. \<exists>i j. x = (i, associateTo, j) \<and> (truthy ns
                   \<and> (i, Deployment, n) \<in> sigs g' \<and> (j, Namespace, items ns) \<in> sigs g'))"
  using assms unfolding dep_frame_def by (elim conjE)

lemma new_edge_not_scheduled:
  assumes "\<forall>x\<in>set new. \<exists>i j. x = (i, associateTo, j) \<and> P i j" and "x \<in> set new"
  shows "\<not> (case x of (a, r, b) \<Rightarrow> r = scheduledTo)"
proof -
  from assms have "\<exists>i j. x = (i, associateTo, j) \<and> P i j" by (rule bspec)
  then obtain i j where "x = (i, associateTo, j)" by (elim exE conjE)
  then show ?thesis by simp
qed

lemma sigs_entity:
  assumes "(i, l, n) \<in> sigs g"
  obtains d where "d \<in> set (nodes g)" and "ident d = i" and "named l n d"
  using assms by (auto simp: sigs_def named_def)

lemma frame_new_edge:
  assumes "x = (i, associateTo, j)" and "truthy ns"
    and "(i, Deployment, n) \<in> sigs g'" and "(j, Namespace, items ns) \<in> sigs g'"
  shows "\<exists>d\<in>set (nodes g'). \<exists>m\<in>set (nodes g').
           named Deployment n d \<and> truthy ns \<and> named Namespace (items ns) m \<and> x = (ident d, associateTo, ident m)"
proof -
  obtain d where d: "d \<in> set (nodes g')" "ident d = i" "named Deployment n d"
    using assms(3) by (rule sigs_entity)
  obtain m where m: "m \<in> set (nodes g')" "ident m = j" "named Namespace (items ns) m"
    using assms(4) by (rule sigs_entity)
  have "x = (ident d, associateTo, ident m)" using assms(1) d(2) m(2) by simp
  then show ?thesis using d(1,3) m(1,3) assms(2) by blast
qed

text \<open>
  C9. \<^verbatim>\<open>upsert_deployment\<close> never creates or removes a \<^verbatim>\<open>scheduledTo\<close> edge: setting or
  changing the selector of a deployment does not scan the pods again. From every state and
  whatever the store answers to the transactions of the call, the \<^verbatim>\<open>scheduledTo\<close> edges
  after the call are those before it, in their order, and the edges after the call are the
  edges before it followed by new edges, each of them an \<^verbatim>\<open>associateTo\<close> edge from a
  deployment of the name of the call to a namespace of the name the call gives.
\<close>

theorem upsert_deployment_leaves_scheduled_edges:
  assumes "g' = db (snd (upsert_deployment ps kw s))"
  shows "filter (\<lambda>(a, r, b). r = scheduledTo) (edges g') = filter (\<lambda>(a, r, b). r = scheduledTo) (edges (db s))
       \<and> (\<exists>new. edges g' = edges (db s) @ new
             \<and> (\<forall>x\<in>set new. \<exists>d\<in>set (nodes g'). \<exists>m\<in>set (nodes g').
                   named Deployment (p_name ps) d \<and> truthy (kw_namespace kw)
                   \<and> named Namespace (items (kw_namespace kw)) m \<and> x = (ident d, associateTo, ident m)))"
proof -
  have "dep_frame (p_name ps) (kw_namespace kw) (db s) g'"
    unfolding assms by (rule upsert_deployment_dep_frame)
  then have "\<exists>new. edges g' = edges (db s) @ new
             \<and> (\<forall>x\<in>set new. \<exists>i j. x = (i, associateTo, j) \<and> (truthy (kw_namespace kw)
                   \<and> (i, Deployment, p_name ps) \<in> sigs g' \<and> (j, Namespace, items (kw_namespace kw)) \<in> sigs g'))"
    by (rule dep_frame_edges)
  then obtain new where e: "edges g' = edges (db s) @ new"
    and n: "\<forall>x\<in>set new. \<exists>i j. x = (i, associateTo, j) \<and> (truthy (kw_namespace kw)
          \<and> (i, Deployment, p_name ps) \<in> sigs g' \<and> (j, Namespace, items (kw_namespace kw)) \<in> sigs g')"
    by (elim exE conjE)
  have "\<not> (case x of (a, r, b) \<Rightarrow> r = scheduledTo)" if "x \<in> set new" for x
    using n that by (rule new_edge_not_scheduled)
  then have "filter (\<lambda>(a, r, b). r = scheduledTo) (edges (db s) @ new)
           = filter (\<lambda>(a, r, b). r = scheduledTo) (edges (db s))"
    by (rule filter_append_none)
  then have a: "filter (\<lambda>(a, r, b). r = scheduledTo) (edges g') = filter (\<lambda>(a, r, b). r = scheduledTo) (edges (db s))"
    by (simp only: e)
  have c: "\<forall>x\<in>set new. \<exists>d\<in>set (nodes g'). \<exists>m\<in>set (nodes g').
                   named Deployment (p_name ps) d \<and> truthy (kw_namespace kw)
                   \<and> named Namespace (items (kw_namespace kw)) m \<and> x = (ident d, associateTo, ident m)"
  proof
    fix x assume "x \<in> set new"
    with n have "\<exists>i j. x = (i, associateTo, j) \<and> (truthy (kw_namespace kw)
          \<and> (i, Deployment, p_name ps) \<in> sigs g' \<and> (j, Namespace, items (kw_namespace kw)) \<in> sigs g')"
      by (rule bspec)
    then obtain i j where "x = (i, associateTo, j)" "truthy (kw_namespace kw)"
        "(i, Deployment, p_name ps) \<in> sigs g'" "(j, Namespace, items (kw_namespace kw)) \<in> sigs g'"
      by (elim exE conjE)
    then show "\<exists>d\<in>set (nodes g'). \<exists>m\<in>set (nodes g').
                   named Deployment (p_name ps) d \<and> truthy (kw_namespace kw)
                   \<and> named Namespace (items (kw_namespace kw)) m \<and> x = (ident d, associateTo, ident m)"
      by (rule frame_new_edge)
  qed
  show ?thesis
    by (rule conjI [OF a], rule exI [of _ new], rule conjI [OF e c])
qed

theorem upsert_deployment_leaves_scheduled_edges_witness:
  "edges (db cluster_linked) = [(3, scheduledTo, 4), (4, runsOn, 1), (4, associateTo, 2)]
   \<and> filter (\<lambda>(a, r, b). r = scheduledTo)
       (edges (db (snd (upsert_deployment (web_props (Some 3) (Some 3)) reselected cluster_linked))))
       = filter (\<lambda>(a, r, b). r = scheduledTo) (edges (db cluster_linked))
   \<and> edges (db (snd (upsert_deployment (web_props (Some 3) (Some 3)) reselected cluster_linked)))
       = [(3, scheduledTo, 4), (4, runsOn, 1), (4, associateTo, 2), (3, associateTo, 2)]
   \<and> map selector (nodes (db (snd (upsert_deployment (web_props (Some 3) (Some 3)) reselected cluster_linked))))
       = [None, None, Some [''app=y''], None]
   \<and> map labels (nodes (db (snd (upsert_deployment (web_props (Some 3) (Some 3)) reselected cluster_linked))))
       = [None, None, None, Some [''app=x'']]"
proof -
  have a: "edges (db cluster_linked) = [(3, scheduledTo, 4), (4, runsOn, 1), (4, associateTo, 2)]"
    by (simp add: cluster_linked_eval healthy_def)
  have b: "edges (db (snd (upsert_deployment (web_props (Some 3) (Some 3)) reselected cluster_linked)))
       = [(3, scheduledTo, 4), (4, runsOn, 1), (4, associateTo, 2), (3, associateTo, 2)]"
    by (simp add: reselected_eval healthy_def)
  have c: "map selector (nodes (db (snd (upsert_deployment (web_props (Some 3) (Some 3)) reselected cluster_linked))))
       = [None, None, Some [''app=y''], None]"
    unfolding reselected_eval by (simp add: healthy_def example_defs new_entity_def)
  have d: "map labels (nodes (db (snd (upsert_deployment (web_props (Some 3) (Some 3)) reselected cluster_linked))))
       = [None, None, None, Some [''app=x'']]"
    unfolding reselected_eval by (simp add: healthy_def example_defs new_entity_def)
  show ?thesis
    using a b c d upsert_deployment_leaves_scheduled_edges
                    [OF refl, of "web_props (Some 3) (Some 3)" reselected cluster_linked]
    by blast
qed

section \<open>Replayed events\<close>

lemma namespace_effect_shape:
  "namespace_effect ps = upsert_shape Namespace (p_name ps) (p_kind ps) (creation_time ps) (namespace_update ps) (\<lambda>ns. [])"
proof
  fix g
  have "when_truthy (p_status ps) (\<lambda>st. set_where (named Namespace (p_name ps)) (\<lambda>e. e\<lparr>status := Some st\<rparr>)) x
      = map_nodes (namespace_update ps) x" for x
  proof (cases "truthy (p_status ps)")
    case True
    then have "namespace_update ps
        = (\<lambda>e. if named Namespace (p_name ps) e then e\<lparr>status := Some (items (p_status ps))\<rparr> else e)"
      using truthy_Some [OF True] by (simp add: namespace_update_def fun_eq_iff)
    then show ?thesis using True by (simp add: when_truthy_if set_where_map_nodes)
  next
    case False
    then have "namespace_update ps = (\<lambda>e. e)" by (simp add: namespace_update_def fun_eq_iff)
    then show ?thesis using False by (simp add: when_truthy_if)
  qed
  then show "namespace_effect ps g
      = upsert_shape Namespace (p_name ps) (p_kind ps) (creation_time ps) (namespace_update ps) (\<lambda>ns. []) g"
    by (simp add: namespace_effect_def upsert_shape_def)
qed

lemma namespace_effect_idem: "namespace_effect ps (namespace_effect ps g) = namespace_effect ps g"
  unfolding namespace_effect_shape
  by (rule upsert_shape_idem) (auto simp: namespace_update_def has_key_def named_def)

lemma dep_effect_shape:
  "dep_effect ps kw = upsert_shape Deployment (p_name ps) (p_kind ps) (creation_time ps) (dep_update ps kw) (dep_pairs ps kw)"
proof
  fix g
  let ?n = "p_name ps"
  let ?rep = "\<lambda>e. if truthy_int (p_ready_replicas ps) \<and> truthy_int (p_replicas ps) \<and> named Deployment ?n e
                   then e\<lparr>replicas := p_replicas ps, ready_replicas := p_ready_replicas ps\<rparr> else e"
  let ?lab = "\<lambda>e. if truthy (kw_labels kw) \<and> named Deployment ?n e
                   then e\<lparr>labels := Some (label_property (items (kw_labels kw)))\<rparr> else e"
  let ?sel = "\<lambda>e. if truthy (kw_selector kw) \<and> named Deployment ?n e
                   then e\<lparr>selector := Some (label_property (items (kw_selector kw)))\<rparr> else e"
  have rep: "(if truthy_int (p_ready_replicas ps) \<and> truthy_int (p_replicas ps)
            then set_where (named Deployment ?n)
                   (\<lambda>e. e\<lparr>replicas := p_replicas ps, ready_replicas := p_ready_replicas ps\<rparr>)
            else (\<lambda>g. g)) x = map_nodes ?rep x" for x
  proof (cases "truthy_int (p_ready_replicas ps) \<and> truthy_int (p_replicas ps)")
    case True
    then show ?thesis by (simp add: set_where_map_nodes)
  next
    case False
    then have "?rep = (\<lambda>e. e)" by (auto simp: fun_eq_iff)
    then show ?thesis using False by auto
  qed
  have lab: "when_truthy (kw_labels kw) (\<lambda>ls.
            set_where (named Deployment ?n) (\<lambda>e. e\<lparr>labels := Some (label_property ls)\<rparr>)) x = map_nodes ?lab x" for x
    by (cases "truthy (kw_labels kw)") (simp_all add: when_truthy_if set_where_map_nodes)
  have sel: "when_truthy (kw_selector kw) (\<lambda>sl.
        set_where (named Deployment ?n) (\<lambda>e. e\<lparr>selector := Some (label_property sl)\<rparr>)) x = map_nodes ?sel x" for x
    by (cases "truthy (kw_selector kw)") (simp_all add: when_truthy_if set_where_map_nodes)
  have ns: "when_truthy (kw_namespace kw) (\<lambda>n.
          merge_edges (named Deployment ?n) associateTo (named Namespace n)) x = add_edges (dep_pairs ps kw) x" for x
    by (cases "truthy (kw_namespace kw)")
       (simp_all add: when_truthy_if merge_edges_def add_edges_def dep_pairs_def)
  have comm: "dep_pairs ps kw (map ?sel xs) = dep_pairs ps kw xs" for xs
    unfolding dep_pairs_def by (simp add: match_pairs_map named_def)
  have upd: "?sel \<circ> (?lab \<circ> ?rep) = dep_update ps kw"
    by (rule ext) (simp add: dep_update_def named_def)
  show "dep_effect ps kw g
      = upsert_shape Deployment ?n (p_kind ps) (creation_time ps) (dep_update ps kw) (dep_pairs ps kw) g"
    unfolding dep_effect_def rep lab sel ns
    by (simp only: map_nodes_add_edges [of "dep_pairs ps kw" ?sel, OF comm] map_nodes_map_nodes upd upsert_shape_def)
qed

lemma dep_effect_idem: "dep_effect ps kw (dep_effect ps kw g) = dep_effect ps kw g"
  unfolding dep_effect_shape
  by (rule upsert_shape_idem) (auto simp: dep_update_def has_key_def named_def)

text \<open>On a store that answers, an upsert returns True, and done again from the state it
  leaves it returns True and leaves that state.\<close>

lemma upsert_pod_again:
  assumes "outcomes s = []"
  shows "\<exists>s'. upsert_pod ps kw s = (Ok True, s') \<and> upsert_pod ps kw s' = (Ok True, s')"
  using assms by (simp add: upsert_pod_healthy pod_effect_idem)

lemma upsert_deployment_again:
  assumes "outcomes s = []"
  shows "\<exists>s'. upsert_deployment ps kw s = (Ok True, s') \<and> upsert_deployment ps kw s' = (Ok True, s')"
  using assms by (simp add: upsert_deployment_healthy dep_effect_idem)

lemma upsert_namespace_again:
  assumes "outcomes s = []"
  shows "\<exists>s'. upsert_namespace ps s = (Ok True, s') \<and> upsert_namespace ps s' = (Ok True, s')"
  using assms by (simp add: upsert_namespace_healthy namespace_effect_idem)

lemma create_node_again:
  assumes "outcomes s = []"
  shows "\<exists>s'. create_node ps s = (Ok True, s') \<and> create_node ps s' = (Ok True, s')"
  using assms by (simp add: create_node_healthy merge_entity_idem)

lemma watch_node_replay:
  assumes "outcomes s = []" and "ev_type ev = ADDED"
  shows "watch_node [ev, ev] s = watch_node [ev] s"
proof (cases "build_base_props ev")
  case (Ok ps)
  obtain s' where "create_node ps s = (Ok True, s')" and "create_node ps s' = (Ok True, s')"
    using create_node_again [OF assms(1), of ps] by (elim exE conjE)
  then show ?thesis using assms(2) Ok by (simp add: bind_io_def lift_io_def return_io_def)
next
  case (Raise x)
  then show ?thesis using assms(2) by (simp add: bind_io_def lift_io_def return_io_def)
qed

lemma watch_namespace_replay:
  assumes "outcomes s = []" and "ev_type ev = ADDED"
  shows "watch_namespace [ev, ev] s = watch_namespace [ev] s"
proof (cases "build_base_props ev")
  case (Raise x)
  then show ?thesis using assms(2) by (simp add: bind_io_def lift_io_def return_io_def)
next
  case (Ok ps)
  show ?thesis
  proof (cases "o_status (ev_object ev)")
    case None
    then show ?thesis using assms(2) Ok by (simp add: bind_io_def lift_io_def return_io_def getattr_def)
  next
    case (Some st)
    obtain s' where "upsert_namespace (ps\<lparr>p_status := st_phase st\<rparr>) s = (Ok True, s')"
        and "upsert_namespace (ps\<lparr>p_status := st_phase st\<rparr>) s' = (Ok True, s')"
      using upsert_namespace_again [OF assms(1), of "ps\<lparr>p_status := st_phase st\<rparr>"] by (elim exE conjE)
    then show ?thesis
      using assms(2) Ok Some by (simp add: bind_io_def lift_io_def return_io_def getattr_def)
  qed
qed

lemma watch_pod_replay:
  assumes "outcomes s = []" and "ev_type ev = ADDED"
  shows "watch_pod [ev, ev] s = watch_pod [ev] s"
proof (cases "o_metadata (ev_object ev)")
  case None
  then show ?thesis by (simp add: bind_io_def lift_io_def return_io_def getattr_def)
next
  case md: (Some md)
  show ?thesis
  proof (cases "o_spec (ev_object ev)")
    case None
    then show ?thesis using md by (simp add: bind_io_def lift_io_def return_io_def getattr_def)
  next
    case sp: (Some sp)
    show ?thesis
    proof (cases "build_base_props ev")
      case (Raise x)
      then show ?thesis
        using md sp assms(2) by (simp add: bind_io_def lift_io_def return_io_def getattr_def)
    next
      case (Ok ps)
      show ?thesis
      proof (cases "o_status (ev_object ev)")
        case None
        then show ?thesis
          using md sp Ok assms(2) by (simp add: bind_io_def lift_io_def return_io_def getattr_def)
      next
        case (Some st)
        let ?ps = "ps\<lparr>p_status := st_phase st, p_pod_ip := st_pod_ip st\<rparr>"
        let ?kw = "\<lparr>kw_labels = m_labels md, kw_namespace = m_namespace md,
                    kw_node_name = sp_node_name sp, kw_selector = None\<rparr>"
        obtain s' where "upsert_pod ?ps ?kw s = (Ok True, s')" and "upsert_pod ?ps ?kw s' = (Ok True, s')"
          using upsert_pod_again [OF assms(1), of ?ps ?kw] by (elim exE conjE)
        then show ?thesis
          using md sp Ok Some assms(2) by (simp add: bind_io_def lift_io_def return_io_def getattr_def)
      qed
    qed
  qed
qed

lemma watch_deployment_replay:
  assumes "outcomes s = []" and "ev_type ev = ADDED"
  shows "watch_deployment [ev, ev] s = watch_deployment [ev] s"
proof (cases "o_metadata (ev_object ev)")
  case None
  then show ?thesis by (simp add: bind_io_def lift_io_def return_io_def getattr_def)
next
  case md: (Some md)
  show ?thesis
  proof (cases "o_spec (ev_object ev)")
    case None
    then show ?thesis
      using md by (simp add: bind_io_def lift_io_def return_io_def getattr_def bind_result_def)
  next
    case sp: (Some sp)
    show ?thesis
    proof (cases "sp_selector sp")
      case None
      then show ?thesis
        using md sp by (simp add: bind_io_def lift_io_def return_io_def getattr_def bind_result_def)
    next
      case sel: (Some sel)
      show ?thesis
      proof (cases "build_base_props ev")
        case (Raise x)
        then show ?thesis
          using md sp sel assms(2)
          by (simp add: bind_io_def lift_io_def return_io_def getattr_def bind_result_def)
      next
        case (Ok ps)
        show ?thesis
        proof (cases "o_status (ev_object ev)")
          case None
          then show ?thesis
            using md sp sel Ok assms(2)
            by (simp add: bind_io_def lift_io_def return_io_def getattr_def bind_result_def)
        next
          case (Some st)
          let ?ps = "ps\<lparr>p_replicas := sp_replicas sp,
                         p_ready_replicas :=
                           (if truthy_int (st_ready_replicas st) then st_ready_replicas st else Some 0)\<rparr>"
          let ?kw = "\<lparr>kw_labels = m_labels md, kw_namespace = m_namespace md,
                      kw_node_name = None, kw_selector = sel\<rparr>"
          obtain s' where "upsert_deployment ?ps ?kw s = (Ok True, s')"
              and "upsert_deployment ?ps ?kw s' = (Ok True, s')"
            using upsert_deployment_again [OF assms(1), of ?ps ?kw] by (elim exE conjE)
          then show ?thesis
            using md sp sel Ok Some assms(2)
            by (simp add: bind_io_def lift_io_def return_io_def getattr_def bind_result_def)
        qed
      qed
    qed
  qed
qed

text \<open>
  C6. Applying the same ADDED event twice leaves the state that applying it once leaves,
  for each of the four kinds of resource, on a store that answers: the loop returns the
  same, and the graph is the same, entity by entity and edge by edge, so that the replay
  creates no duplicate of an entity or of an edge.
\<close>

theorem replayed_added_event_changes_nothing:
  assumes "outcomes s = []" and "ev_type ev = ADDED"
  shows "watch_node [ev, ev] s = watch_node [ev] s
       \<and> watch_namespace [ev, ev] s = watch_namespace [ev] s
       \<and> watch_pod [ev, ev] s = watch_pod [ev] s
       \<and> watch_deployment [ev, ev] s = watch_deployment [ev] s"
  using watch_node_replay [OF assms] watch_namespace_replay [OF assms]
        watch_pod_replay [OF assms] watch_deployment_replay [OF assms]
  by simp

theorem replayed_added_event_changes_nothing_witness:
  "outcomes cluster = [] \<and> ev_type pod_added = ADDED
   \<and> watch_pod [pod_added, pod_added] cluster = watch_pod [pod_added] cluster
   \<and> watch_pod [pod_added] cluster
       = (Ok (), healthy \<lparr>nodes = [stored_node, stored_namespace, cluster_web, running_pod],
                           edges = [(3, scheduledTo, 4), (4, runsOn, 1), (4, associateTo, 2)]\<rparr>)"
proof -
  have h1: "outcomes cluster = []" by (simp add: cluster_eval healthy_def)
  have h2: "ev_type pod_added = ADDED" by (simp add: pod_added_def)
  show ?thesis
    using h1 h2 replayed_added_event_changes_nothing [OF h1 h2] pod_added_eval by blast
qed

end
